theory Spec2Isabelle
  imports Complex_Main "HOL-Library.Multiset"
begin

section \<open>Asteroid Dodge: the simulation core of game.js\<close>

text \<open>
  A shallow embedding of \<^verbatim>\<open>src/game.js\<close>. JavaScript numbers are modelled as
  \<^typ>\<open>real\<close>: arithmetic is exact, there is no rounding, no NaN and no infinity.
  Counts that drive a \<^verbatim>\<open>for\<close> loop or a \<^verbatim>\<open>slice\<close> are \<^typ>\<open>nat\<close>.
  The global \<^verbatim>\<open>CONFIG\<close> object is a record passed to every function; the
  constant \<open>CONFIG\<close> holds the values written in the source.
\<close>

subsection \<open>Configuration\<close>

record config =
  canvasWidth :: real
  canvasHeight :: real
  shipSpeed :: real
  shipSize :: real
  asteroidBaseSpeed :: real
  asteroidSpeedVariance :: real
  asteroidMinSize :: real
  asteroidMaxSize :: real
  asteroidSpawnInterval :: real
  asteroidBatchSize :: nat
  asteroidAngleSpread :: real
  asteroidVertices :: "real \<times> real"
  asteroidRotationSpeed :: real
  surgeInterval :: "real \<times> real"
  surgeDuration :: "real \<times> real"
  surgeMultiplier :: real
  starCount :: nat
  explosionParticleCount :: nat
  screenShakeDuration :: real
  screenShakeIntensity :: real
  maxScoresSaved :: nat

definition CONFIG :: config where
  "CONFIG = \<lparr>
     canvasWidth = 600,
     canvasHeight = 600,
     shipSpeed = 340,
     shipSize = 4,
     asteroidBaseSpeed = 155,
     asteroidSpeedVariance = 90,
     asteroidMinSize = 4,
     asteroidMaxSize = 14,
     asteroidSpawnInterval = 200,
     asteroidBatchSize = 3,
     asteroidAngleSpread = 13 / 10,
     asteroidVertices = (5, 8),
     asteroidRotationSpeed = 3,
     surgeInterval = (5000, 10000),
     surgeDuration = (1500, 2500),
     surgeMultiplier = 3 / 2,
     starCount = 80,
     explosionParticleCount = 30,
     screenShakeDuration = 400,
     screenShakeIntensity = 8,
     maxScoresSaved = 10 \<rparr>"

subsection \<open>Utility helpers\<close>

text \<open>
  \<^verbatim>\<open>Math.random()\<close> is the only source of randomness. The values it will return, in
  order, are a function from draw number to value; each draw hands back the value and
  the remaining values. The host returns values in \<open>[0, 1)\<close>, which is \<open>wf_rng\<close>.
\<close>

type_synonym rng = "nat \<Rightarrow> real"

definition wf_rng :: "rng \<Rightarrow> bool" where
  "wf_rng g = (\<forall>n. 0 \<le> g n \<and> g n < 1)"

definition Math_random :: "rng \<Rightarrow> real \<times> rng" where
  "Math_random g = (g 0, \<lambda>n. g (Suc n))"

definition rand :: "real \<Rightarrow> real \<Rightarrow> rng \<Rightarrow> real \<times> rng" where
  "rand mn mx g = (case Math_random g of (u, g') \<Rightarrow> (u * (mx - mn) + mn, g'))"

definition randInt :: "real \<Rightarrow> real \<Rightarrow> rng \<Rightarrow> int \<times> rng" where
  "randInt mn mx g = (case rand mn (mx + 1) g of (v, g') \<Rightarrow> (\<lfloor>v\<rfloor>, g'))"

definition dist_js :: "real \<Rightarrow> real \<Rightarrow> real \<Rightarrow> real \<Rightarrow> real" where
  "dist_js x1 y1 x2 y2 =
     (let dx = x1 - x2; dy = y1 - y2 in sqrt (dx * dx + dy * dy))"

definition clamp :: "real \<Rightarrow> real \<Rightarrow> real \<Rightarrow> real" where
  "clamp val mn mx = max mn (min mx val)"

subsection \<open>Ship\<close>

record Ship =
  ship_x :: real
  ship_y :: real
  ship_size :: real

definition Ship_new :: "config \<Rightarrow> real \<Rightarrow> real \<Rightarrow> Ship" where
  "Ship_new cfg x0 y0 = \<lparr> ship_x = x0, ship_y = y0, ship_size = shipSize cfg \<rparr>"

text \<open>
  The key map of the input adapter: a key that was never pressed reads
  \<^verbatim>\<open>undefined\<close>, which is falsy, so a key is either held or not.
\<close>

type_synonym keys = "string \<Rightarrow> bool"

definition pressed_left :: "keys \<Rightarrow> bool" where
  "pressed_left ks = (ks ''ArrowLeft'' \<or> ks ''a'')"

definition pressed_right :: "keys \<Rightarrow> bool" where
  "pressed_right ks = (ks ''ArrowRight'' \<or> ks ''d'')"

definition pressed_up :: "keys \<Rightarrow> bool" where
  "pressed_up ks = (ks ''ArrowUp'' \<or> ks ''w'')"

definition pressed_down :: "keys \<Rightarrow> bool" where
  "pressed_down ks = (ks ''ArrowDown'' \<or> ks ''s'')"

definition key_dx :: "keys \<Rightarrow> real" where
  "key_dx ks =
     (let dx = 0;
          dx = (if pressed_left ks then dx - 1 else dx);
          dx = (if pressed_right ks then dx + 1 else dx)
      in dx)"

definition key_dy :: "keys \<Rightarrow> real" where
  "key_dy ks =
     (let dy = 0;
          dy = (if pressed_up ks then dy - 1 else dy);
          dy = (if pressed_down ks then dy + 1 else dy)
      in dy)"

text \<open>The position after the movement step and before the clamp.\<close>

definition Ship_move :: "config \<Rightarrow> real \<Rightarrow> keys \<Rightarrow> Ship \<Rightarrow> Ship" where
  "Ship_move cfg dt ks s =
     (let dx = key_dx ks;
          dy = key_dy ks;
          len = sqrt (dx * dx + dy * dy);
          dx = (if len > 0 then dx / len else dx);
          dy = (if len > 0 then dy / len else dy)
      in s\<lparr> ship_x := ship_x s + dx * shipSpeed cfg * dt,
             ship_y := ship_y s + dy * shipSpeed cfg * dt \<rparr>)"

definition Ship_clamp :: "config \<Rightarrow> Ship \<Rightarrow> Ship" where
  "Ship_clamp cfg s =
     (let s1 = s\<lparr> ship_x := clamp (ship_x s) (ship_size s) (canvasWidth cfg - ship_size s) \<rparr>
      in s1\<lparr> ship_y := clamp (ship_y s1) (ship_size s1) (canvasHeight cfg - ship_size s1) \<rparr>)"

definition Ship_update :: "config \<Rightarrow> real \<Rightarrow> keys \<Rightarrow> Ship \<Rightarrow> Ship" where
  "Ship_update cfg dt ks s = Ship_clamp cfg (Ship_move cfg dt ks s)"

subsection \<open>Asteroid\<close>

record Asteroid =
  a_size :: real
  a_rotation :: real
  a_rotationSpeed :: real
  a_vertices :: "(real \<times> real) list"
  a_x :: real
  a_y :: real
  a_baseVx :: real
  a_baseVy :: real
  a_vx :: real
  a_vy :: real

text \<open>
  \<^verbatim>\<open>Math.atan2(y, x)\<close> is the argument of the complex number \<open>x + iy\<close>, in
  \<open>(-pi, pi]\<close>, and 0 at the origin.
\<close>

definition Math_atan2 :: "real \<Rightarrow> real \<Rightarrow> real" where
  "Math_atan2 y x = Arg (Complex x y)"

text \<open>
  The vertex loop of the constructor, from index \<open>i\<close> on: each vertex is a pair
  (angle, r).
\<close>

function vertices_from :: "real \<Rightarrow> int \<Rightarrow> nat \<Rightarrow> rng \<Rightarrow> (real \<times> real) list \<times> rng" where
  "vertices_from sz vertCount i g =
     (if int i < vertCount then
        (let angle = (real i / real_of_int vertCount) * pi * 2 in
         case rand (7 / 10) 1 g of (u, g1) \<Rightarrow>
         case vertices_from sz vertCount (Suc i) g1 of (vs, g2) \<Rightarrow>
           ((angle, sz * u) # vs, g2))
      else ([], g))"
  by pat_completeness auto
termination
  by (relation "measure (\<lambda>(sz, vertCount, i, g). nat (vertCount - int i))") auto

text \<open>
  The \<^verbatim>\<open>switch\<close> of \<^verbatim>\<open>_spawnFromEdge\<close>: the position and the aim point
  (x, y, aimX, aimY) for the edge drawn, each case drawing its three random numbers in
  the order of the source. The switch has no default case: for any other edge number
  the position is never assigned, which is \<open>None\<close>.
\<close>

definition edge_switch ::
  "real \<Rightarrow> real \<Rightarrow> real \<Rightarrow> int \<Rightarrow> rng \<Rightarrow> (real \<times> real \<times> real \<times> real) option \<times> rng" where
  "edge_switch W H margin edge g =
     (if edge = 0 then
        (case rand 0 W g of (x, g1) \<Rightarrow>
         case rand 0 W g1 of (aimX, g2) \<Rightarrow>
         case rand (H * (3 / 10)) H g2 of (aimY, g3) \<Rightarrow>
           (Some (x, - margin, aimX, aimY), g3))
      else if edge = 1 then
        (case rand 0 H g of (y, g1) \<Rightarrow>
         case rand 0 (W * (7 / 10)) g1 of (aimX, g2) \<Rightarrow>
         case rand 0 H g2 of (aimY, g3) \<Rightarrow>
           (Some (W + margin, y, aimX, aimY), g3))
      else if edge = 2 then
        (case rand 0 W g of (x, g1) \<Rightarrow>
         case rand 0 W g1 of (aimX, g2) \<Rightarrow>
         case rand 0 (H * (7 / 10)) g2 of (aimY, g3) \<Rightarrow>
           (Some (x, H + margin, aimX, aimY), g3))
      else if edge = 3 then
        (case rand 0 H g of (y, g1) \<Rightarrow>
         case rand (W * (3 / 10)) W g1 of (aimX, g2) \<Rightarrow>
         case rand 0 H g2 of (aimY, g3) \<Rightarrow>
           (Some (- margin, y, aimX, aimY), g3))
      else (None, g))"

text \<open>
  \<^verbatim>\<open>_spawnFromEdge\<close>. The result is \<open>None\<close> when the switch assigned no position;
  the two draws after the switch (aim spread and speed) happen in either case.
\<close>

definition spawnFromEdge :: "config \<Rightarrow> Asteroid \<Rightarrow> rng \<Rightarrow> Asteroid option \<times> rng" where
  "spawnFromEdge cfg a g =
     (let W = canvasWidth cfg;
          H = canvasHeight cfg;
          margin = a_size a + 5
      in case randInt 0 3 g of (edge, g1) \<Rightarrow>
         case edge_switch W H margin edge g1 of (pos, g2) \<Rightarrow>
         case rand (- asteroidAngleSpread cfg / 2) (asteroidAngleSpread cfg / 2) g2 of (spread, g3) \<Rightarrow>
         case rand (- asteroidSpeedVariance cfg) (asteroidSpeedVariance cfg) g3 of (variance, g4) \<Rightarrow>
           (case pos of
              None \<Rightarrow> (None, g4)
            | Some (x, y, aimX, aimY) \<Rightarrow>
                (let baseAngle = Math_atan2 (aimY - y) (aimX - x);
                     angle = baseAngle + spread;
                     speed = asteroidBaseSpeed cfg + variance
                 in (Some (a\<lparr> a_x := x, a_y := y,
                              a_baseVx := cos angle * speed, a_baseVy := sin angle * speed,
                              a_vx := cos angle * speed, a_vy := sin angle * speed \<rparr>), g4))))"

text \<open>
  The constructor. Before \<^verbatim>\<open>_spawnFromEdge\<close> runs, position and velocity are not
  yet assigned; the record holds 0 there and \<open>spawnFromEdge\<close> overwrites all six fields.
\<close>

definition Asteroid_new :: "config \<Rightarrow> rng \<Rightarrow> Asteroid option \<times> rng" where
  "Asteroid_new cfg g =
     (case rand (asteroidMinSize cfg) (asteroidMaxSize cfg) g of (sz, g1) \<Rightarrow>
      case rand (- asteroidRotationSpeed cfg) (asteroidRotationSpeed cfg) g1 of (rs, g2) \<Rightarrow>
      case randInt (fst (asteroidVertices cfg)) (snd (asteroidVertices cfg)) g2 of (vertCount, g3) \<Rightarrow>
      case vertices_from sz vertCount 0 g3 of (vs, g4) \<Rightarrow>
        spawnFromEdge cfg
          \<lparr> a_size = sz, a_rotation = 0, a_rotationSpeed = rs, a_vertices = vs,
            a_x = 0, a_y = 0, a_baseVx = 0, a_baseVy = 0, a_vx = 0, a_vy = 0 \<rparr> g4)"

definition Asteroid_update :: "real \<Rightarrow> real \<Rightarrow> Asteroid \<Rightarrow> Asteroid" where
  "Asteroid_update dt speedMultiplier a =
     (let a1 = a\<lparr> a_vx := a_baseVx a * speedMultiplier \<rparr>;
          a2 = a1\<lparr> a_vy := a_baseVy a1 * speedMultiplier \<rparr>;
          a3 = a2\<lparr> a_x := a_x a2 + a_vx a2 * dt \<rparr>;
          a4 = a3\<lparr> a_y := a_y a3 + a_vy a3 * dt \<rparr>
      in a4\<lparr> a_rotation := a_rotation a4 + a_rotationSpeed a4 * dt \<rparr>)"

definition isOffScreen :: "config \<Rightarrow> Asteroid \<Rightarrow> bool" where
  "isOffScreen cfg a =
     (let margin = a_size a + 60
      in a_x a < - margin \<or> a_x a > canvasWidth cfg + margin
       \<or> a_y a < - margin \<or> a_y a > canvasHeight cfg + margin)"

text \<open>
  The spawn position of the claims about construction: outside the field by exactly
  size + 5 along one of the four edges (top, right, bottom, left), the other coordinate
  inside the field extent.
\<close>

definition just_outside :: "config \<Rightarrow> Asteroid \<Rightarrow> bool" where
  "just_outside cfg a =
     (a_y a = - (a_size a + 5) \<and> 0 \<le> a_x a \<and> a_x a \<le> canvasWidth cfg
    \<or> a_x a = canvasWidth cfg + (a_size a + 5) \<and> 0 \<le> a_y a \<and> a_y a \<le> canvasHeight cfg
    \<or> a_y a = canvasHeight cfg + (a_size a + 5) \<and> 0 \<le> a_x a \<and> a_x a \<le> canvasWidth cfg
    \<or> a_x a = - (a_size a + 5) \<and> 0 \<le> a_y a \<and> a_y a \<le> canvasHeight cfg)"


subsection \<open>Score persistence (localStorage)\<close>

text \<open>
  What a read of the score key finds. \<^verbatim>\<open>localStorage.getItem\<close> and
  \<^verbatim>\<open>JSON.parse\<close> are host functions; the stored text is modelled by what they make
  of it.
\<close>

datatype parsed =
    Numbers "real list"  \<comment> \<open>a JSON array of numbers, which is what \<^verbatim>\<open>_save\<close> writes\<close>
  | NotArray  \<comment> \<open>any JSON value that is not an array: null, a boolean, a number, a string, an object\<close>

text \<open>
  Arrays that hold anything but numbers are outside this model: on them the comparator
  \<^verbatim>\<open>(a, b) => b - a\<close> coerces its arguments and the order is up to the host.
\<close>

datatype item =
    Unreadable  \<comment> \<open>\<^verbatim>\<open>getItem\<close> throws (storage access denied)\<close>
  | Missing  \<comment> \<open>\<^verbatim>\<open>getItem\<close> returns null: the key was never written\<close>
  | EmptyText  \<comment> \<open>the stored text is the empty string, which is falsy\<close>
  | Malformed  \<comment> \<open>a non-empty text on which \<^verbatim>\<open>JSON.parse\<close> throws a SyntaxError\<close>
  | Parsed parsed  \<comment> \<open>a non-empty text that \<^verbatim>\<open>JSON.parse\<close> accepts, with the value it returns\<close>

record localStorage =
  stored :: item
  setItem_throws :: bool  \<comment> \<open>whether a write fails (quota exceeded, access denied)\<close>

datatype error =
    TypeError  \<comment> \<open>the exception of calling \<^verbatim>\<open>sort\<close> or \<^verbatim>\<open>push\<close> on a value that has no such method\<close>
  | Unplaced  \<comment> \<open>an asteroid whose position the edge switch never assigned\<close>

fun load :: "item \<Rightarrow> parsed" where
  "load Unreadable = Numbers []"
| "load Missing = Numbers []"
| "load EmptyText = Numbers []"
| "load Malformed = Numbers []"
| "load (Parsed v) = v"

definition save :: "real list \<Rightarrow> localStorage \<Rightarrow> localStorage" where
  "save scores ls = (if setItem_throws ls then ls else ls\<lparr> stored := Parsed (Numbers scores) \<rparr>)"

text \<open>\<^verbatim>\<open>sort((a, b) => b - a)\<close> on an array of numbers: descending order.\<close>

definition sort_desc :: "real list \<Rightarrow> real list" where
  "sort_desc xs = rev (sort xs)"

definition getScores :: "localStorage \<Rightarrow> error + real list" where
  "getScores ls =
     (case load (stored ls) of
        Numbers xs \<Rightarrow> Inr (sort_desc xs)
      | NotArray \<Rightarrow> Inl TypeError)"

definition getBest :: "localStorage \<Rightarrow> error + real" where
  "getBest ls =
     (case getScores ls of
        Inl e \<Rightarrow> Inl e
      | Inr scores \<Rightarrow> Inr (if length scores > 0 then scores ! 0 else 0))"

definition addScore :: "config \<Rightarrow> real \<Rightarrow> localStorage \<Rightarrow> error + localStorage" where
  "addScore cfg score ls =
     (case load (stored ls) of
        Numbers xs \<Rightarrow>
          (let scores = xs @ [score];
               scores = sort_desc scores
           in Inr (save (take (maxScoresSaved cfg) scores) ls))
      | NotArray \<Rightarrow> Inl TypeError)"

subsection \<open>Explosion particle\<close>

record Particle =
  p_x :: real
  p_y :: real
  p_vx :: real
  p_vy :: real
  p_life :: real
  p_decay :: real
  p_size :: real
  p_color :: "string option"  \<comment> \<open>\<open>None\<close> is \<^verbatim>\<open>undefined\<close>: an index outside the colour table\<close>

definition colors :: "string list" where
  "colors = [''#ff4444'', ''#ff8844'', ''#ffcc22'', ''#ffffff'', ''#ff6622'', ''#ffaa00'']"

definition Particle_new :: "real \<Rightarrow> real \<Rightarrow> rng \<Rightarrow> Particle \<times> rng" where
  "Particle_new x0 y0 g =
     (case rand 0 (pi * 2) g of (angle, g1) \<Rightarrow>
      case rand 60 250 g1 of (speed, g2) \<Rightarrow>
      case rand (3 / 2) (7 / 2) g2 of (decay, g3) \<Rightarrow>
      case rand (3 / 2) 4 g3 of (sz, g4) \<Rightarrow>
      case randInt 0 (real (length colors) - 1) g4 of (c, g5) \<Rightarrow>
        (\<lparr> p_x = x0, p_y = y0, p_vx = cos angle * speed, p_vy = sin angle * speed,
           p_life = 1, p_decay = decay, p_size = sz,
           p_color = (if 0 \<le> c \<and> c < int (length colors) then Some (colors ! nat c) else None) \<rparr>,
         g5))"

subsection \<open>Main game\<close>

datatype phase = Title | Playing | GameOver

text \<open>
  The fields of \<^verbatim>\<open>Game\<close> that the update phase reads or writes, together with the
  two pieces of the host it uses: the future values of \<^verbatim>\<open>Math.random\<close> and the
  local storage. Canvas, stars, key listeners and frame timing belong to rendering and
  input and are left out. A field that JavaScript has not assigned yet (the ship before
  the first run, the final score before the first game over) holds some value here.
  A function that can throw returns \<open>error + Game\<close>: an exception leaves the update
  and reaches the frame loop, and the result is the error, not the partly updated game.
\<close>

record Game =
  state :: phase
  bestScore :: real
  ship :: Ship
  asteroids :: "Asteroid list"
  particles :: "Particle list"
  elapsedTime :: real
  spawnTimer :: real
  surgeActive :: bool
  surgeTimer :: real
  surgeDurationTimer :: real
  speedMultiplier :: real
  shakeTimer :: real
  shakeX :: real
  shakeY :: real
  gameOverReady :: bool
  gameOverTimer :: real
  finalScore :: real
  topScores :: "real list"
  rnd :: rng
  storage :: localStorage

definition startGame :: "config \<Rightarrow> Game \<Rightarrow> Game" where
  "startGame cfg g =
     (case rand (fst (surgeInterval cfg)) (snd (surgeInterval cfg)) (rnd g) of (t, r) \<Rightarrow>
        g\<lparr> state := Playing,
           ship := Ship_new cfg (canvasWidth cfg / 2) (canvasHeight cfg / 2),
           asteroids := [],
           particles := [],
           elapsedTime := 0,
           spawnTimer := 0,
           surgeActive := False,
           surgeTimer := t,
           surgeDurationTimer := 0,
           speedMultiplier := 1,
           shakeTimer := 0,
           shakeX := 0,
           shakeY := 0,
           gameOverReady := False,
           gameOverTimer := 0,
           rnd := r \<rparr>)"

text \<open>The particle loop of \<^verbatim>\<open>triggerGameOver\<close>, with \<open>n\<close> iterations left.\<close>

fun spawnExplosion :: "nat \<Rightarrow> real \<Rightarrow> real \<Rightarrow> Particle list \<Rightarrow> rng \<Rightarrow> Particle list \<times> rng" where
  "spawnExplosion 0 x0 y0 ps r = (ps, r)"
| "spawnExplosion (Suc n) x0 y0 ps r =
     (case Particle_new x0 y0 r of (p, r1) \<Rightarrow> spawnExplosion n x0 y0 (ps @ [p]) r1)"

definition triggerGameOver :: "config \<Rightarrow> Game \<Rightarrow> error + Game" where
  "triggerGameOver cfg g =
     (let g1 = g\<lparr> state := GameOver, gameOverReady := False, gameOverTimer := 0 \<rparr>;
          score = elapsedTime g1
      in case addScore cfg score (storage g1) of
           Inl e \<Rightarrow> Inl e
         | Inr ls \<Rightarrow>
             (let g2 = g1\<lparr> storage := ls, finalScore := score \<rparr>
              in case getBest (storage g2) of
                   Inl e \<Rightarrow> Inl e
                 | Inr best \<Rightarrow>
                     (case getScores (storage g2) of
                        Inl e \<Rightarrow> Inl e
                      | Inr tops \<Rightarrow>
                          (let g3 = g2\<lparr> bestScore := best, topScores := tops \<rparr>
                           in case spawnExplosion (explosionParticleCount cfg)
                                     (ship_x (ship g3)) (ship_y (ship g3)) (particles g3) (rnd g3) of
                                (ps, r) \<Rightarrow>
                                  Inr (g3\<lparr> particles := ps, rnd := r,
                                           shakeTimer := screenShakeDuration cfg / 1000 \<rparr>)))))"

definition updateSurge :: "config \<Rightarrow> real \<Rightarrow> Game \<Rightarrow> Game" where
  "updateSurge cfg dt g =
     (let dtMs = dt * 1000
      in if surgeActive g then
           (let g1 = g\<lparr> surgeDurationTimer := surgeDurationTimer g - dtMs \<rparr>
            in if surgeDurationTimer g1 \<le> 0 then
                 (case rand (fst (surgeInterval cfg)) (snd (surgeInterval cfg)) (rnd g1) of
                    (t, r) \<Rightarrow> g1\<lparr> surgeActive := False, speedMultiplier := 1,
                                    surgeTimer := t, rnd := r \<rparr>)
               else g1)
         else
           (let g1 = g\<lparr> surgeTimer := surgeTimer g - dtMs \<rparr>
            in if surgeTimer g1 \<le> 0 then
                 (case rand (fst (surgeDuration cfg)) (snd (surgeDuration cfg)) (rnd g1) of
                    (t, r) \<Rightarrow> g1\<lparr> surgeActive := True, speedMultiplier := surgeMultiplier cfg,
                                    surgeDurationTimer := t, rnd := r \<rparr>)
               else g1))"

text \<open>The batch loop of the spawn step, with \<open>n\<close> iterations left.\<close>

fun spawnBatch :: "config \<Rightarrow> nat \<Rightarrow> Asteroid list \<Rightarrow> rng \<Rightarrow> error + (Asteroid list \<times> rng)" where
  "spawnBatch cfg 0 asts r = Inr (asts, r)"
| "spawnBatch cfg (Suc n) asts r =
     (case Asteroid_new cfg r of
        (None, r1) \<Rightarrow> Inl Unplaced
      | (Some a, r1) \<Rightarrow> spawnBatch cfg n (asts @ [a]) r1)"

text \<open>The spawn step of \<^verbatim>\<open>updatePlaying\<close> (the block under "Spawn asteroids").\<close>

definition spawnAsteroids :: "config \<Rightarrow> real \<Rightarrow> Game \<Rightarrow> error + Game" where
  "spawnAsteroids cfg dt g =
     (let g1 = g\<lparr> spawnTimer := spawnTimer g + dt * 1000 \<rparr>
      in if spawnTimer g1 \<ge> asteroidSpawnInterval cfg then
           (let g2 = g1\<lparr> spawnTimer := spawnTimer g1 - asteroidSpawnInterval cfg \<rparr>
            in case spawnBatch cfg (asteroidBatchSize cfg) (asteroids g2) (rnd g2) of
                 Inl e \<Rightarrow> Inl e
               | Inr (asts, r) \<Rightarrow> Inr (g2\<lparr> asteroids := asts, rnd := r \<rparr>))
         else Inr g1)"

text \<open>
  The move-and-cull loop, which runs the index down from the last element: \<open>Suc i\<close>
  elements are still to be visited, the next one is at index \<open>i\<close>, and
  \<^verbatim>\<open>splice(i, 1)\<close> removes it.
\<close>

fun updateAsteroids :: "config \<Rightarrow> real \<Rightarrow> real \<Rightarrow> nat \<Rightarrow> Asteroid list \<Rightarrow> Asteroid list" where
  "updateAsteroids cfg dt m 0 asts = asts"
| "updateAsteroids cfg dt m (Suc i) asts =
     (let asts1 = asts[i := Asteroid_update dt m (asts ! i)]
      in updateAsteroids cfg dt m i
           (if isOffScreen cfg (asts1 ! i) then take i asts1 @ drop (Suc i) asts1 else asts1))"

text \<open>
  The collision loop: \<open>True\<close> when it reaches \<^verbatim>\<open>triggerGameOver(); return\<close> at some
  asteroid, \<open>False\<close> when it runs to the end.
\<close>

fun collisionDetected :: "Ship \<Rightarrow> Asteroid list \<Rightarrow> bool" where
  "collisionDetected s [] = False"
| "collisionDetected s (a # rest) =
     (let d = dist_js (ship_x s) (ship_y s) (a_x a) (a_y a)
      in if d < (ship_size s + a_size a) * (8 / 10) then True
         else collisionDetected s rest)"

definition updatePlaying :: "config \<Rightarrow> real \<Rightarrow> keys \<Rightarrow> Game \<Rightarrow> error + Game" where
  "updatePlaying cfg dt ks g =
     (let g1 = g\<lparr> elapsedTime := elapsedTime g + dt \<rparr>;
          g2 = g1\<lparr> ship := Ship_update cfg dt ks (ship g1) \<rparr>;
          g3 = updateSurge cfg dt g2
      in case spawnAsteroids cfg dt g3 of
           Inl e \<Rightarrow> Inl e
         | Inr g4 \<Rightarrow>
             (let g5 = g4\<lparr> asteroids :=
                         updateAsteroids cfg dt (speedMultiplier g4) (length (asteroids g4)) (asteroids g4) \<rparr>
              in if collisionDetected (ship g5) (asteroids g5) then triggerGameOver cfg g5
                 else Inr g5))"

text \<open>Several update calls in a row, one per elapsed time of the list.\<close>

definition feedSurge :: "config \<Rightarrow> real list \<Rightarrow> Game \<Rightarrow> Game" where
  "feedSurge cfg dts g = fold (updateSurge cfg) dts g"

text \<open>
  The states reachable from run start by surge-controller updates. Between two updates
  other components may draw random numbers, which leaves some later values of
  \<^verbatim>\<open>Math.random\<close>.
\<close>

inductive surge_reachable :: "config \<Rightarrow> Game \<Rightarrow> bool" for cfg :: config where
  start: "wf_rng (rnd g) \<Longrightarrow> surge_reachable cfg (startGame cfg g)"
| update: "surge_reachable cfg g \<Longrightarrow> surge_reachable cfg (updateSurge cfg dt g)"
| draws: "surge_reachable cfg g \<Longrightarrow> wf_rng r \<Longrightarrow> surge_reachable cfg (g\<lparr> rnd := r \<rparr>)"

text \<open>A game on the title screen, before any run, for the examples.\<close>

definition title_game :: "rng \<Rightarrow> localStorage \<Rightarrow> Game" where
  "title_game r ls =
     \<lparr> state = Title, bestScore = 0,
       ship = \<lparr> ship_x = 0, ship_y = 0, ship_size = 0 \<rparr>,
       asteroids = [], particles = [], elapsedTime = 0, spawnTimer = 0,
       surgeActive = False, surgeTimer = 0, surgeDurationTimer = 0, speedMultiplier = 1,
       shakeTimer = 0, shakeX = 0, shakeY = 0, gameOverReady = False, gameOverTimer = 0,
       finalScore = 0, topScores = [], rnd = r, storage = ls \<rparr>"

text \<open>The Euclidean distance between the centre of the ship and the centre of an asteroid.\<close>

definition centre_distance :: "Ship \<Rightarrow> Asteroid \<Rightarrow> real" where
  "centre_distance s a = sqrt ((ship_x s - a_x a)\<^sup>2 + (ship_y s - a_y a)\<^sup>2)"

text \<open>
  Examples: the ship in the centre of the field, an asteroid of radius 6 at rest on the
  ship's row, and a run that has just started with that asteroid on top of the ship.
\<close>

definition ex_ship :: Ship where
  "ex_ship = \<lparr> ship_x = 300, ship_y = 300, ship_size = 4 \<rparr>"
definition ex_ast :: "real \<Rightarrow> Asteroid" where
  "ex_ast x = \<lparr> a_size = 6, a_rotation = 0, a_rotationSpeed = 0, a_vertices = [],
            a_x = x, a_y = 300, a_baseVx = 0, a_baseVy = 0, a_vx = 0, a_vy = 0 \<rparr>"


definition ex_game :: Game where
  "ex_game =
     (startGame CONFIG (title_game (\<lambda>_. 1 / 2) \<lparr> stored = Missing, setItem_throws = False \<rparr>))
       \<lparr> asteroids := [ex_ast 300] \<rparr>"

text \<open>A run that has just started, with all timers at their initial values.\<close>

definition ex_run :: Game where
  "ex_run = startGame CONFIG (title_game (\<lambda>_. 1 / 2) \<lparr> stored = Missing, setItem_throws = False \<rparr>)"

section \<open>Properties\<close>

subsection \<open>Ship\<close>

lemma clamp_bounds: "mn \<le> mx \<Longrightarrow> mn \<le> clamp v mn mx \<and> clamp v mn mx \<le> mx"
  by (simp add: clamp_def)

lemma Ship_update_size: "ship_size (Ship_update cfg dt ks s) = ship_size s"
  by (simp add: Ship_update_def Ship_clamp_def Ship_move_def Let_def)

text \<open>
  C4. For every dt (in particular every dt >= 0), every starting position and every
  combination of held keys, the ship's position after \<open>Ship_update\<close> lies within
  [radius, fieldWidth - radius] x [radius, fieldHeight - radius]. The field has to be
  large enough for the ship (twice the radius at most the width and the height):
  otherwise the target rectangle is empty.
\<close>

theorem ship_update_in_bounds:
  assumes "2 * ship_size s \<le> canvasWidth cfg" and "2 * ship_size s \<le> canvasHeight cfg"
  shows "ship_size s \<le> ship_x (Ship_update cfg dt ks s)
       \<and> ship_x (Ship_update cfg dt ks s) \<le> canvasWidth cfg - ship_size s
       \<and> ship_size s \<le> ship_y (Ship_update cfg dt ks s)
       \<and> ship_y (Ship_update cfg dt ks s) \<le> canvasHeight cfg - ship_size s"
proof -
  have w: "ship_size s \<le> canvasWidth cfg - ship_size s"
    and h: "ship_size s \<le> canvasHeight cfg - ship_size s"
    using assms by simp_all
  show ?thesis
    using clamp_bounds [OF w] clamp_bounds [OF h]
    by (simp add: Ship_update_def Ship_clamp_def Ship_move_def Let_def)
qed

theorem ship_update_in_bounds_witness:
  "2 * ship_size (Ship_new CONFIG 5 5) \<le> canvasWidth CONFIG
   \<and> 2 * ship_size (Ship_new CONFIG 5 5) \<le> canvasHeight CONFIG
   \<and> ship_size (Ship_new CONFIG 5 5)
       \<le> ship_x (Ship_update CONFIG (1/20) (\<lambda>k. k = ''ArrowLeft'') (Ship_new CONFIG 5 5))
   \<and> ship_x (Ship_update CONFIG (1/20) (\<lambda>k. k = ''ArrowLeft'') (Ship_new CONFIG 5 5))
       \<le> canvasWidth CONFIG - ship_size (Ship_new CONFIG 5 5)
   \<and> ship_size (Ship_new CONFIG 5 5)
       \<le> ship_y (Ship_update CONFIG (1/20) (\<lambda>k. k = ''ArrowLeft'') (Ship_new CONFIG 5 5))
   \<and> ship_y (Ship_update CONFIG (1/20) (\<lambda>k. k = ''ArrowLeft'') (Ship_new CONFIG 5 5))
       \<le> canvasHeight CONFIG - ship_size (Ship_new CONFIG 5 5)"
  using ship_update_in_bounds [of "Ship_new CONFIG 5 5" CONFIG "1/20" "\<lambda>k. k = ''ArrowLeft''"]
  by (simp add: CONFIG_def Ship_new_def)

lemma sqrt_sq_mult: "sqrt (a\<^sup>2 * b\<^sup>2) = \<bar>a * b\<bar>" "sqrt (a\<^sup>2 * b\<^sup>2) = \<bar>b * a\<bar>"
  by (simp_all add: real_sqrt_mult abs_mult)

lemma key_dx_cases: "pressed_left ks \<noteq> pressed_right ks \<Longrightarrow> key_dx ks = 1 \<or> key_dx ks = -1"
  by (auto simp: key_dx_def)

lemma key_dx_zero: "pressed_left ks = pressed_right ks \<Longrightarrow> key_dx ks = 0"
  by (auto simp: key_dx_def)

lemma key_dy_cases: "pressed_up ks \<noteq> pressed_down ks \<Longrightarrow> key_dy ks = 1 \<or> key_dy ks = -1"
  by (auto simp: key_dy_def)

lemma key_dy_zero: "pressed_up ks = pressed_down ks \<Longrightarrow> key_dy ks = 0"
  by (auto simp: key_dy_def)

lemma Ship_move_diag:
  assumes "pressed_left ks \<noteq> pressed_right ks" "pressed_up ks \<noteq> pressed_down ks"
  shows "sqrt ((ship_x (Ship_move cfg dt ks s) - ship_x s)\<^sup>2 + (ship_y (Ship_move cfg dt ks s) - ship_y s)\<^sup>2)
         = \<bar>shipSpeed cfg * dt\<bar>"
proof -
  have s2: "sqrt 2 > 0" by simp
  have sq: "(a / sqrt 2)\<^sup>2 + (a / sqrt 2)\<^sup>2 = a\<^sup>2" for a :: real
    by (simp add: power2_eq_square field_simps)
  from key_dx_cases[OF assms(1)] key_dy_cases[OF assms(2)]
  show ?thesis
    using sq[of "shipSpeed cfg * dt"]
    by (auto simp: Ship_move_def Let_def power_divide power_mult_distrib sqrt_sq_mult mult.commute)
qed

lemma Ship_move_axis:
  assumes "(pressed_left ks \<noteq> pressed_right ks) \<noteq> (pressed_up ks \<noteq> pressed_down ks)"
  shows "sqrt ((ship_x (Ship_move cfg dt ks s) - ship_x s)\<^sup>2 + (ship_y (Ship_move cfg dt ks s) - ship_y s)\<^sup>2)
         = \<bar>shipSpeed cfg * dt\<bar>"
proof (cases "pressed_left ks \<noteq> pressed_right ks")
  case True
  with assms have "pressed_up ks = pressed_down ks" by auto
  from key_dx_cases[OF True] key_dy_zero[OF this]
  show ?thesis
    by (auto simp: Ship_move_def Let_def power_mult_distrib sqrt_sq_mult)
next
  case False
  with assms have "pressed_up ks \<noteq> pressed_down ks" by auto
  from key_dy_cases[OF this] key_dx_zero False
  show ?thesis
    by (auto simp: Ship_move_def Let_def power_mult_distrib sqrt_sq_mult)
qed


text \<open>
  C6. For equal dt >= 0, an update with exactly two orthogonal directions held (one
  horizontal and one vertical) moves the ship by the same Euclidean distance as an
  update whose held keys amount to one direction, namely shipSpeed * dt, provided the
  boundary clamp leaves the moved position unchanged in both updates.
\<close>

theorem diagonal_speed_equals_axis_speed:
  assumes "0 \<le> dt" and "0 \<le> shipSpeed cfg"
    and "pressed_left kd \<noteq> pressed_right kd" and "pressed_up kd \<noteq> pressed_down kd"
    and "(pressed_left k1 \<noteq> pressed_right k1) \<noteq> (pressed_up k1 \<noteq> pressed_down k1)"
    and "Ship_update cfg dt kd s = Ship_move cfg dt kd s"
    and "Ship_update cfg dt k1 s = Ship_move cfg dt k1 s"
  shows "sqrt ((ship_x (Ship_update cfg dt kd s) - ship_x s)\<^sup>2
             + (ship_y (Ship_update cfg dt kd s) - ship_y s)\<^sup>2) = shipSpeed cfg * dt
       \<and> sqrt ((ship_x (Ship_update cfg dt k1 s) - ship_x s)\<^sup>2
             + (ship_y (Ship_update cfg dt k1 s) - ship_y s)\<^sup>2) = shipSpeed cfg * dt"
proof -
  have "\<bar>shipSpeed cfg * dt\<bar> = shipSpeed cfg * dt"
    using assms(1,2) by simp
  then show ?thesis
    using Ship_move_diag [OF assms(3,4), of cfg dt s] Ship_move_axis [OF assms(5), of cfg dt s]
    by (simp add: assms(6,7))
qed

lemma sqrt2_bounds: "1 \<le> sqrt 2" "sqrt 2 \<le> 2"
  by (simp_all add: real_le_lsqrt)

lemma no_clamp_diag_example:
  "Ship_update CONFIG (1/20) (\<lambda>k. k = ''ArrowUp'' \<or> k = ''ArrowLeft'') (Ship_new CONFIG 300 300)
   = Ship_move CONFIG (1/20) (\<lambda>k. k = ''ArrowUp'' \<or> k = ''ArrowLeft'') (Ship_new CONFIG 300 300)"
proof -
  have a: "17 / sqrt 2 \<le> 17" using sqrt2_bounds by (simp add: field_simps)
  have "0 \<le> 17 / sqrt 2" by simp
  then have b: "\<not> 296 \<le> - (17 / sqrt 2)" by linarith
  show ?thesis
    using a b
    by (simp add: Ship_update_def Ship_clamp_def Ship_move_def CONFIG_def Ship_new_def
        key_dx_def key_dy_def pressed_left_def pressed_right_def pressed_up_def pressed_down_def
        clamp_def Let_def min_def max_def)
qed

lemma no_clamp_axis_example:
  "Ship_update CONFIG (1/20) (\<lambda>k. k = ''ArrowLeft'') (Ship_new CONFIG 300 300)
   = Ship_move CONFIG (1/20) (\<lambda>k. k = ''ArrowLeft'') (Ship_new CONFIG 300 300)"
  by (simp add: Ship_update_def Ship_clamp_def Ship_move_def CONFIG_def Ship_new_def
        key_dx_def key_dy_def pressed_left_def pressed_right_def pressed_up_def pressed_down_def
        clamp_def Let_def min_def max_def)

theorem diagonal_speed_equals_axis_speed_witness:
  "sqrt ((ship_x (Ship_update CONFIG (1/20) (\<lambda>k. k = ''ArrowUp'' \<or> k = ''ArrowLeft'') (Ship_new CONFIG 300 300)) - 300)\<^sup>2
       + (ship_y (Ship_update CONFIG (1/20) (\<lambda>k. k = ''ArrowUp'' \<or> k = ''ArrowLeft'') (Ship_new CONFIG 300 300)) - 300)\<^sup>2) = 17
   \<and> sqrt ((ship_x (Ship_update CONFIG (1/20) (\<lambda>k. k = ''ArrowLeft'') (Ship_new CONFIG 300 300)) - 300)\<^sup>2
       + (ship_y (Ship_update CONFIG (1/20) (\<lambda>k. k = ''ArrowLeft'') (Ship_new CONFIG 300 300)) - 300)\<^sup>2) = 17"
  using diagonal_speed_equals_axis_speed [of "1/20" CONFIG "\<lambda>k. k = ''ArrowUp'' \<or> k = ''ArrowLeft''"
      "\<lambda>k. k = ''ArrowLeft''" "Ship_new CONFIG 300 300", OF _ _ _ _ _ no_clamp_diag_example no_clamp_axis_example]
  by (simp add: pressed_left_def pressed_right_def pressed_up_def pressed_down_def CONFIG_def Ship_new_def)

subsection \<open>Asteroid\<close>

text \<open>
  C5. For any asteroid, any dt and any multiplier m (in particular dt >= 0 and m >= 0),
  one update sets the velocity to the base velocity times m and displaces the position
  by base velocity * m * dt, which is exactly m times the displacement of the same
  update at multiplier 1. The multiplier rescales the fixed base velocity afresh on
  every call and is never accumulated: after an earlier update with any other dt' and
  m', the velocity is again base velocity * m and the displacement base velocity * m * dt
  of the original asteroid, and the base velocity is never changed by an update.
\<close>

theorem asteroid_multiplier_scaling:
  "a_vx (Asteroid_update dt m a) = a_baseVx a * m
   \<and> a_vy (Asteroid_update dt m a) = a_baseVy a * m
   \<and> a_x (Asteroid_update dt m a) = a_x a + a_baseVx a * m * dt
   \<and> a_y (Asteroid_update dt m a) = a_y a + a_baseVy a * m * dt
   \<and> a_vx (Asteroid_update dt m (Asteroid_update dt' m' a)) = a_baseVx a * m
   \<and> a_vy (Asteroid_update dt m (Asteroid_update dt' m' a)) = a_baseVy a * m
   \<and> a_x (Asteroid_update dt m (Asteroid_update dt' m' a))
       = a_x (Asteroid_update dt' m' a) + a_baseVx a * m * dt
   \<and> a_y (Asteroid_update dt m (Asteroid_update dt' m' a))
       = a_y (Asteroid_update dt' m' a) + a_baseVy a * m * dt
   \<and> a_x (Asteroid_update dt m a) - a_x a = m * (a_x (Asteroid_update dt 1 a) - a_x a)
   \<and> a_y (Asteroid_update dt m a) - a_y a = m * (a_y (Asteroid_update dt 1 a) - a_y a)
   \<and> a_x (Asteroid_update dt m (Asteroid_update dt' m' a)) - a_x (Asteroid_update dt' m' a)
       = m * (a_x (Asteroid_update dt 1 a) - a_x a)
   \<and> a_y (Asteroid_update dt m (Asteroid_update dt' m' a)) - a_y (Asteroid_update dt' m' a)
       = m * (a_y (Asteroid_update dt 1 a) - a_y a)
   \<and> a_baseVx (Asteroid_update dt m a) = a_baseVx a
   \<and> a_baseVy (Asteroid_update dt m a) = a_baseVy a
   \<and> a_size (Asteroid_update dt m a) = a_size a
   \<and> a_rotation (Asteroid_update dt m a) = a_rotation a + a_rotationSpeed a * dt"
  by (simp add: Asteroid_update_def Let_def)

lemma wf_rng_tl: "wf_rng g \<Longrightarrow> wf_rng (\<lambda>n. g (Suc n))"
  by (simp add: wf_rng_def)

lemma Math_random_wf: "wf_rng g \<Longrightarrow> wf_rng (snd (Math_random g))"
  by (simp add: Math_random_def wf_rng_tl)

lemma rand_wf: "wf_rng g \<Longrightarrow> wf_rng (snd (rand mn mx g))"
  by (simp add: rand_def Math_random_def wf_rng_tl)

lemma randInt_wf: "wf_rng g \<Longrightarrow> wf_rng (snd (randInt mn mx g))"
  by (simp add: randInt_def rand_def Math_random_def wf_rng_tl)

lemma rand_range:
  assumes "wf_rng g" "mn \<le> mx"
  shows "mn \<le> fst (rand mn mx g)" "fst (rand mn mx g) \<le> mx"
proof -
  have u: "0 \<le> g 0" "g 0 < 1" using assms(1) by (simp_all add: wf_rng_def)
  have d: "0 \<le> mx - mn" using assms(2) by simp
  have "0 \<le> g 0 * (mx - mn)" using u d by simp
  then show "mn \<le> fst (rand mn mx g)" by (simp add: rand_def Math_random_def)
  have "g 0 * (mx - mn) \<le> 1 * (mx - mn)" using u d by (intro mult_right_mono) simp_all
  then show "fst (rand mn mx g) \<le> mx" by (simp add: rand_def Math_random_def)
qed

lemma rand_nonneg:
  assumes "wf_rng g" "0 \<le> mn" "0 \<le> mx"
  shows "0 \<le> fst (rand mn mx g)"
proof -
  have u: "0 \<le> g 0" "g 0 < 1" using assms(1) by (simp_all add: wf_rng_def)
  have "g 0 * (mx - mn) + mn = g 0 * mx + (1 - g 0) * mn" by (simp add: algebra_simps)
  moreover have "0 \<le> g 0 * mx" "0 \<le> (1 - g 0) * mn" using u assms(2,3) by simp_all
  ultimately show ?thesis by (simp add: rand_def Math_random_def)
qed

lemma randInt_0_3:
  assumes "wf_rng g"
  shows "fst (randInt 0 3 g) \<in> {0, 1, 2, 3}"
proof -
  define k where "k = \<lfloor>g 0 * 4\<rfloor>"
  have u: "0 \<le> g 0" "g 0 < 1" using assms(1) by (simp_all add: wf_rng_def)
  have "0 \<le> k" using u by (simp add: k_def)
  moreover have "k < 4" using u by (simp add: k_def floor_less_iff)
  moreover have "fst (randInt 0 3 g) = k"
    by (simp add: k_def randInt_def rand_def Math_random_def)
  ultimately show ?thesis by auto
qed


lemma vertices_from_wf: "wf_rng g \<Longrightarrow> wf_rng (snd (vertices_from sz vc i g))"
proof (induction sz vc i g rule: vertices_from.induct)
  case (1 sz vertCount i g)
  show ?case
  proof (cases "int i < vertCount")
    case True
    have "wf_rng (snd (rand (7 / 10) 1 g))" using "1.prems" by (rule rand_wf)
    then have "wf_rng (snd (vertices_from sz vertCount (Suc i) (snd (rand (7 / 10) 1 g))))"
      using "1.IH" [OF True refl, of "fst (rand (7 / 10) 1 g)" "snd (rand (7 / 10) 1 g)"] by simp
    then show ?thesis
      using True by (subst vertices_from.simps) (simp add: case_prod_beta Let_def)
  next
    case False
    then show ?thesis using "1.prems" by (subst vertices_from.simps) simp
  qed
qed

lemma just_outside_on_screen:
  assumes "just_outside cfg a" "0 \<le> a_size a" "0 \<le> canvasWidth cfg" "0 \<le> canvasHeight cfg"
  shows "\<not> isOffScreen cfg a"
  using assms by (auto simp: just_outside_def isOffScreen_def Let_def)

lemma edge_switch_pos:
  assumes "wf_rng g" "0 \<le> W" "0 \<le> H" "edge \<in> {0, 1, 2, 3}"
  shows "\<exists>x y aimX aimY. fst (edge_switch W H margin edge g) = Some (x, y, aimX, aimY)
          \<and> (y = - margin \<and> 0 \<le> x \<and> x \<le> W
           \<or> x = W + margin \<and> 0 \<le> y \<and> y \<le> H
           \<or> y = H + margin \<and> 0 \<le> x \<and> x \<le> W
           \<or> x = - margin \<and> 0 \<le> y \<and> y \<le> H)"
  using assms(4) rand_range [OF assms(1), of 0 W] rand_range [OF assms(1), of 0 H] assms(2,3)
  by (auto simp: edge_switch_def case_prod_beta)

lemma spawnFromEdge_pos:
  assumes "wf_rng g" "0 \<le> canvasWidth cfg" "0 \<le> canvasHeight cfg"
  shows "\<exists>a'. fst (spawnFromEdge cfg a g) = Some a' \<and> a_size a' = a_size a \<and> just_outside cfg a'"
proof -
  let ?e = "fst (randInt 0 3 g)" and ?g1 = "snd (randInt 0 3 g)"
  have "wf_rng ?g1" using assms(1) by (rule randInt_wf)
  from edge_switch_pos [OF this assms(2,3) randInt_0_3 [OF assms(1)], of "a_size a + 5"]
  obtain x y aimX aimY where
    sw: "fst (edge_switch (canvasWidth cfg) (canvasHeight cfg) (a_size a + 5) ?e ?g1) = Some (x, y, aimX, aimY)"
    and pos: "y = - (a_size a + 5) \<and> 0 \<le> x \<and> x \<le> canvasWidth cfg
           \<or> x = canvasWidth cfg + (a_size a + 5) \<and> 0 \<le> y \<and> y \<le> canvasHeight cfg
           \<or> y = canvasHeight cfg + (a_size a + 5) \<and> 0 \<le> x \<and> x \<le> canvasWidth cfg
           \<or> x = - (a_size a + 5) \<and> 0 \<le> y \<and> y \<le> canvasHeight cfg"
    by blast
  show ?thesis
    using sw pos by (simp add: spawnFromEdge_def case_prod_beta Let_def just_outside_def)
qed


text \<open>
  C10. Every freshly constructed asteroid is not off-screen. With Math.random in [0, 1),
  a field of non-negative width and height and non-negative size bounds, the
  constructor assigns a position (the edge switch always matches), the position is
  outside the field by exactly size + 5 along the chosen edge with the other coordinate
  inside [0, field extent], and \<open>isOffScreen\<close> is false for it.
\<close>

theorem fresh_asteroid_not_offscreen:
  assumes "wf_rng g" and "0 \<le> canvasWidth cfg" and "0 \<le> canvasHeight cfg"
    and "0 \<le> asteroidMinSize cfg" and "0 \<le> asteroidMaxSize cfg"
  shows "\<exists>a g'. Asteroid_new cfg g = (Some a, g') \<and> just_outside cfg a \<and> \<not> isOffScreen cfg a"
proof -
  let ?sz = "fst (rand (asteroidMinSize cfg) (asteroidMaxSize cfg) g)"
  let ?g1 = "snd (rand (asteroidMinSize cfg) (asteroidMaxSize cfg) g)"
  let ?rs = "fst (rand (- asteroidRotationSpeed cfg) (asteroidRotationSpeed cfg) ?g1)"
  let ?g2 = "snd (rand (- asteroidRotationSpeed cfg) (asteroidRotationSpeed cfg) ?g1)"
  let ?vc = "fst (randInt (fst (asteroidVertices cfg)) (snd (asteroidVertices cfg)) ?g2)"
  let ?g3 = "snd (randInt (fst (asteroidVertices cfg)) (snd (asteroidVertices cfg)) ?g2)"
  let ?vs = "fst (vertices_from ?sz ?vc 0 ?g3)"
  let ?g4 = "snd (vertices_from ?sz ?vc 0 ?g3)"
  let ?a0 = "\<lparr> a_size = ?sz, a_rotation = 0, a_rotationSpeed = ?rs, a_vertices = ?vs,
            a_x = 0, a_y = 0, a_baseVx = 0, a_baseVy = 0, a_vx = 0, a_vy = 0 \<rparr>"
  have new: "Asteroid_new cfg g = spawnFromEdge cfg ?a0 ?g4"
    by (simp add: Asteroid_new_def case_prod_beta)
  have sz: "0 \<le> ?sz" using assms(1,4,5) by (rule rand_nonneg)
  have "wf_rng ?g4"
    using assms(1) by (intro vertices_from_wf randInt_wf rand_wf)
  from spawnFromEdge_pos [OF this assms(2,3), of ?a0]
  obtain a where a: "fst (spawnFromEdge cfg ?a0 ?g4) = Some a" "a_size a = ?sz" "just_outside cfg a"
    by auto
  have "\<not> isOffScreen cfg a"
    using a(3) _ assms(2,3) by (rule just_outside_on_screen) (simp add: a(2) sz)
  moreover have "Asteroid_new cfg g = (Some a, snd (spawnFromEdge cfg ?a0 ?g4))"
    using a(1) new by (simp add: prod_eq_iff)
  ultimately show ?thesis using a(3) by blast
qed

lemma wf_rng_half: "wf_rng (\<lambda>_. 1 / 2)"
  by (simp add: wf_rng_def)

theorem fresh_asteroid_not_offscreen_witness:
  "\<exists>a g'. Asteroid_new CONFIG (\<lambda>_. 1 / 2) = (Some a, g') \<and> just_outside CONFIG a \<and> \<not> isOffScreen CONFIG a"
  using fresh_asteroid_not_offscreen [OF wf_rng_half, of CONFIG]
  by (simp add: CONFIG_def)

lemma fresh_asteroid_example:
  "a_x (the (fst (Asteroid_new CONFIG (\<lambda>_. 1 / 2)))) = 300 \<and> a_y (the (fst (Asteroid_new CONFIG (\<lambda>_. 1 / 2)))) = 614"
  by (simp add: Asteroid_new_def spawnFromEdge_def edge_switch_def randInt_def rand_def Math_random_def CONFIG_def case_prod_beta Let_def)

subsection \<open>Score persistence\<close>

lemma sort_desc_sorted: "sorted (rev (sort_desc xs))"
  by (simp add: sort_desc_def)

lemma sort_desc_mset: "mset (sort_desc xs) = mset xs"
  by (simp add: sort_desc_def)

lemma take_desc_dominates:
  assumes "sorted (rev zs)"
  shows "\<forall>y\<in>set (take n zs). \<forall>z\<in>set (drop n zs). z \<le> y"
proof -
  have "rev zs = rev (drop n zs) @ rev (take n zs)"
    by (metis append_take_drop_id rev_append)
  with assms have "sorted (rev (drop n zs) @ rev (take n zs))" by simp
  then show ?thesis by (auto simp: sorted_append)
qed

lemma mset_minus_take: "mset zs - mset (take n zs) = mset (drop n zs)"
proof -
  have "mset zs = mset (take n zs) + mset (drop n zs)"
    by (metis append_take_drop_id mset_append)
  then show ?thesis by simp
qed

lemma addScore_general:
  assumes "load (stored ls) = Numbers xs" and "\<not> setItem_throws ls"
  shows "\<exists>ys. addScore cfg v ls = Inr (ls\<lparr> stored := Parsed (Numbers ys) \<rparr>)
          \<and> sorted (rev ys)
          \<and> length ys = min (maxScoresSaved cfg) (length xs + 1)
          \<and> mset ys \<subseteq># mset (xs @ [v])
          \<and> (\<forall>y\<in>set ys. \<forall>z\<in>#mset (xs @ [v]) - mset ys. z \<le> y)"
proof -
  define zs where "zs = sort_desc (xs @ [v])"
  define ys where "ys = take (maxScoresSaved cfg) zs"
  have d: "sorted (rev zs)" by (simp add: zs_def sort_desc_sorted)
  have m: "mset zs = mset (xs @ [v])" unfolding zs_def by (rule sort_desc_mset)
  have "addScore cfg v ls = Inr (ls\<lparr> stored := Parsed (Numbers ys) \<rparr>)"
    using assms by (simp add: addScore_def save_def ys_def zs_def Let_def)
  moreover have "sorted (rev ys)"
    using d unfolding ys_def by (metis append_take_drop_id rev_append sorted_append)
  moreover have "length ys = min (maxScoresSaved cfg) (length xs + 1)"
    by (simp add: ys_def zs_def sort_desc_def min.commute)
  moreover have "mset ys \<subseteq># mset (xs @ [v])"
    unfolding m [symmetric] ys_def by (metis append_take_drop_id mset_append mset_subset_eq_add_left)
  moreover have "\<forall>y\<in>set ys. \<forall>z\<in>#mset (xs @ [v]) - mset ys. z \<le> y"
    unfolding m [symmetric] ys_def mset_minus_take using take_desc_dominates [OF d] by simp
  ultimately show ?thesis by blast
qed

text \<open>
  C7. \<open>addScore\<close> inserts the new duration into the stored list, sorts it descending
  and persists only the first maxScoresSaved entries. For a loaded array of numbers
  (the stored one, or the empty one when nothing usable is stored) and a write that
  succeeds, the persisted list is sorted descending, has
  min (maxScoresSaved, length + 1) entries, is a sub-multiset of the loaded entries plus
  the new one, and every entry it keeps is at least every entry it drops. From stored
  [10, 5, 3] with max 10, addScore(8) leaves [10, 8, 5, 3]; from stored [10, 5] with
  max 2, addScore(8) leaves [10, 8].
\<close>

theorem addScore_sorts_and_caps:
  "(load (stored ls) = Numbers xs \<and> \<not> setItem_throws ls \<longrightarrow>
      (\<exists>ys. addScore cfg v ls = Inr (ls\<lparr> stored := Parsed (Numbers ys) \<rparr>)
          \<and> sorted (rev ys)
          \<and> length ys = min (maxScoresSaved cfg) (length xs + 1)
          \<and> mset ys \<subseteq># mset (xs @ [v])
          \<and> (\<forall>y\<in>set ys. \<forall>z\<in>#mset (xs @ [v]) - mset ys. z \<le> y)))
   \<and> addScore (CONFIG\<lparr> maxScoresSaved := 10 \<rparr>) 8 \<lparr> stored = Parsed (Numbers [10, 5, 3]), setItem_throws = False \<rparr>
       = Inr \<lparr> stored = Parsed (Numbers [10, 8, 5, 3]), setItem_throws = False \<rparr>
   \<and> addScore (CONFIG\<lparr> maxScoresSaved := 2 \<rparr>) 8 \<lparr> stored = Parsed (Numbers [10, 5]), setItem_throws = False \<rparr>
       = Inr \<lparr> stored = Parsed (Numbers [10, 8]), setItem_throws = False \<rparr>"
proof -
  have "addScore (CONFIG\<lparr> maxScoresSaved := 10 \<rparr>) 8 \<lparr> stored = Parsed (Numbers [10, 5, 3]), setItem_throws = False \<rparr>
       = Inr \<lparr> stored = Parsed (Numbers [10, 8, 5, 3]), setItem_throws = False \<rparr>"
    by (simp add: addScore_def save_def sort_desc_def)
  moreover have "addScore (CONFIG\<lparr> maxScoresSaved := 2 \<rparr>) 8 \<lparr> stored = Parsed (Numbers [10, 5]), setItem_throws = False \<rparr>
       = Inr \<lparr> stored = Parsed (Numbers [10, 8]), setItem_throws = False \<rparr>"
    by (simp add: addScore_def save_def sort_desc_def)
  ultimately show ?thesis using addScore_general [of ls xs cfg v] by blast
qed

theorem addScore_sorts_and_caps_witness:
  "\<exists>ys. addScore CONFIG 8 \<lparr> stored = Parsed (Numbers [10, 5, 3]), setItem_throws = False \<rparr>
           = Inr \<lparr> stored = Parsed (Numbers ys), setItem_throws = False \<rparr>
      \<and> sorted (rev ys) \<and> length ys = 4 \<and> mset ys \<subseteq># mset [10, 5, 3, 8]"
  using addScore_sorts_and_caps [of "\<lparr> stored = Parsed (Numbers [10, 5, 3]), setItem_throws = False \<rparr>"
      "[10, 5, 3]" CONFIG 8]
  by (auto simp: CONFIG_def)


text \<open>
  Reads that find no usable text give the empty list and best score 0; a stored array
  of numbers is returned sorted; a failing write leaves the storage as it was and
  \<open>addScore\<close> returns normally.
\<close>

lemma getScores_no_text:
  assumes "stored ls \<in> {Unreadable, Missing, EmptyText, Malformed}"
  shows "getScores ls = Inr [] \<and> getBest ls = Inr 0"
  using assms by (auto simp: getScores_def getBest_def sort_desc_def)

lemma getScores_numbers:
  assumes "stored ls = Parsed (Numbers xs)"
  shows "getScores ls = Inr (sort_desc xs) \<and> (\<exists>b. getBest ls = Inr b)"
  using assms by (simp add: getScores_def getBest_def)

lemma addScore_failing_write:
  assumes "setItem_throws ls" and "stored ls \<noteq> Parsed NotArray"
  shows "addScore cfg v ls = Inr ls"
proof (cases "load (stored ls)")
  case (Numbers xs)
  then show ?thesis using assms(1) by (simp add: addScore_def save_def Let_def)
next
  case NotArray
  then have "stored ls = Parsed NotArray" by (cases "stored ls") simp_all
  with assms(2) show ?thesis by simp
qed

text \<open>
  C8. Score persistence is never fatal for every possible persisted value. The code
  does not establish this: a stored text that is valid JSON but not an array (for
  example \<^verbatim>\<open>{}\<close>, \<^verbatim>\<open>null\<close> or \<^verbatim>\<open>5\<close>) passes the try/catch of
  \<^verbatim>\<open>_load\<close> unchanged, and the calls of \<^verbatim>\<open>sort\<close> in getScores and of
  \<^verbatim>\<open>push\<close> in addScore, which are outside any try/catch, throw a TypeError that
  reaches the caller of getScores, getBest and addScore.
\<close>

theorem scores_non_array_throws:
  "getScores \<lparr> stored = Parsed NotArray, setItem_throws = False \<rparr> = Inl TypeError
   \<and> getBest \<lparr> stored = Parsed NotArray, setItem_throws = False \<rparr> = Inl TypeError
   \<and> addScore CONFIG 1 \<lparr> stored = Parsed NotArray, setItem_throws = False \<rparr> = Inl TypeError"
  by (simp add: getScores_def getBest_def addScore_def)

subsection \<open>Collision detection\<close>

lemma dist_js_centre: "dist_js (ship_x s) (ship_y s) (a_x a) (a_y a) = centre_distance s a"
  by (simp add: dist_js_def centre_distance_def power2_eq_square Let_def)

lemma collisionDetected_iff:
  "collisionDetected s asts \<longleftrightarrow>
     (\<exists>a\<in>set asts. centre_distance s a < (8 / 10) * (ship_size s + a_size a))"
  by (induction asts) (auto simp: dist_js_centre Let_def mult.commute)

lemma updateSurge_state: "state (updateSurge cfg dt g) = state g"
  by (simp add: updateSurge_def Let_def case_prod_beta)

lemma spawnAsteroids_state: "spawnAsteroids cfg dt g = Inr g' \<Longrightarrow> state g' = state g"
  by (auto simp: spawnAsteroids_def Let_def split: if_splits sum.splits)

lemma triggerGameOver_result:
  assumes "triggerGameOver cfg g = Inr g'"
  shows "state g' = GameOver \<and> ship g' = ship g \<and> asteroids g' = asteroids g"
  using assms
  by (auto simp: triggerGameOver_def Let_def case_prod_beta split: sum.splits)

lemma updatePlaying_collision:
  assumes "state g = Playing" and "updatePlaying cfg dt ks g = Inr g'"
  shows "state g' = GameOver \<longleftrightarrow> collisionDetected (ship g') (asteroids g')"
proof -
  let ?g3 = "updateSurge cfg dt (g\<lparr> elapsedTime := elapsedTime g + dt,
      ship := Ship_update cfg dt ks (ship g) \<rparr>)"
  obtain g4 where g4: "spawnAsteroids cfg dt ?g3 = Inr g4"
    using assms(2) by (auto simp: updatePlaying_def Let_def split: sum.splits)
  let ?g5 = "g4\<lparr> asteroids :=
      updateAsteroids cfg dt (speedMultiplier g4) (length (asteroids g4)) (asteroids g4) \<rparr>"
  have st: "state ?g5 = Playing"
    using spawnAsteroids_state [OF g4] assms(1) by (simp add: updateSurge_state)
  show ?thesis
  proof (cases "collisionDetected (ship ?g5) (asteroids ?g5)")
    case True
    then have "triggerGameOver cfg ?g5 = Inr g'"
      using assms(2) g4 by (simp add: updatePlaying_def Let_def)
    from triggerGameOver_result [OF this] True show ?thesis by simp
  next
    case False
    then have "g' = ?g5"
      using assms(2) g4 by (simp add: updatePlaying_def Let_def)
    with False st show ?thesis by simp
  qed
qed


text \<open>
  C1. For the ship with radius rs and an asteroid with radius ra, the collision check of
  the playing state signals "collided" exactly when the Euclidean distance between
  their centres is strictly less than 0.8 * (rs + ra). With a positive radius sum, an
  asteroid at the ship's exact position triggers it and one at distance
  0.79 * (rs + ra) does; one at distance exactly 0.8 * (rs + ra) does not. For a whole
  \<open>updatePlaying\<close> call that returns, the game is over afterwards exactly when some
  asteroid that is left after the move-and-cull step is that close to the ship.
\<close>

theorem collision_iff_within_forgiving_radius:
  "(collisionDetected s [a] \<longleftrightarrow> centre_distance s a < (8 / 10) * (ship_size s + a_size a))
   \<and> (0 < ship_size s + a_size a \<and> a_x a = ship_x s \<and> a_y a = ship_y s \<longrightarrow> collisionDetected s [a])
   \<and> (centre_distance s a = (8 / 10) * (ship_size s + a_size a) \<longrightarrow> \<not> collisionDetected s [a])
   \<and> (0 < ship_size s + a_size a \<and> centre_distance s a = (79 / 100) * (ship_size s + a_size a)
        \<longrightarrow> collisionDetected s [a])
   \<and> (state g = Playing \<and> updatePlaying cfg dt ks g = Inr g' \<longrightarrow>
        (state g' = GameOver \<longleftrightarrow>
          (\<exists>b\<in>set (asteroids g'). centre_distance (ship g') b < (8 / 10) * (ship_size (ship g') + a_size b))))"
proof -
  have one: "collisionDetected s [a] \<longleftrightarrow> centre_distance s a < (8 / 10) * (ship_size s + a_size a)"
    by (simp add: collisionDetected_iff)
  have same: "centre_distance s a = 0" if "a_x a = ship_x s" "a_y a = ship_y s"
    using that by (simp add: centre_distance_def)
  have game: "state g' = GameOver \<longleftrightarrow>
          (\<exists>b\<in>set (asteroids g'). centre_distance (ship g') b < (8 / 10) * (ship_size (ship g') + a_size b))"
    if "state g = Playing" "updatePlaying cfg dt ks g = Inr g'"
    using updatePlaying_collision [OF that] by (simp add: collisionDetected_iff)
  show ?thesis
    using one same game by auto
qed

lemma ex_dist: "0 \<le> d \<Longrightarrow> centre_distance ex_ship (ex_ast (300 + d)) = d"
  by (simp add: centre_distance_def ex_ship_def ex_ast_def)

lemma ex_game_over:
  "case updatePlaying CONFIG 0 (\<lambda>_. False) ex_game of Inl e \<Rightarrow> False | Inr g' \<Rightarrow> state g' = GameOver"
  by (simp add: updatePlaying_def ex_game_def startGame_def title_game_def updateSurge_def spawnAsteroids_def
      Ship_update_def Ship_move_def Ship_clamp_def clamp_def key_dx_def key_dy_def pressed_left_def pressed_right_def pressed_up_def pressed_down_def
      Ship_new_def ex_ast_def Asteroid_update_def isOffScreen_def dist_js_def
      triggerGameOver_def addScore_def save_def getBest_def getScores_def sort_desc_def
      rand_def Math_random_def CONFIG_def Let_def case_prod_beta)

theorem collision_iff_within_forgiving_radius_witness:
  "collisionDetected ex_ship [ex_ast 300]
   \<and> \<not> collisionDetected ex_ship [ex_ast 308]
   \<and> collisionDetected ex_ship [ex_ast (3079 / 10)]
   \<and> (\<exists>g'. updatePlaying CONFIG 0 (\<lambda>_. False) ex_game = Inr g' \<and> state g' = GameOver
         \<and> (\<exists>b\<in>set (asteroids g'). centre_distance (ship g') b < (8 / 10) * (ship_size (ship g') + a_size b)))"
proof -
  have r: "ship_size ex_ship + a_size (ex_ast x) = 10" for x
    by (simp add: ex_ship_def ex_ast_def)
  have d0: "a_x (ex_ast 300) = ship_x ex_ship \<and> a_y (ex_ast 300) = ship_y ex_ship"
    by (simp add: ex_ship_def ex_ast_def)
  have d8: "centre_distance ex_ship (ex_ast 308) = 8"
    using ex_dist [of 8] by simp
  have d79: "centre_distance ex_ship (ex_ast (3079 / 10)) = 79 / 10"
    using ex_dist [of "79 / 10"] by simp
  have p: "state ex_game = Playing"
    by (simp add: ex_game_def startGame_def case_prod_beta)
  obtain g' where g': "updatePlaying CONFIG 0 (\<lambda>_. False) ex_game = Inr g'" "state g' = GameOver"
    using ex_game_over by (auto split: sum.splits)
  have "collisionDetected ex_ship [ex_ast 300]"
    by (rule collision_iff_within_forgiving_radius
          [of ex_ship "ex_ast 300", THEN conjunct2, THEN conjunct1, rule_format])
       (simp add: d0 r)
  moreover have "\<not> collisionDetected ex_ship [ex_ast 308]"
    by (rule collision_iff_within_forgiving_radius
          [of ex_ship "ex_ast 308", THEN conjunct2, THEN conjunct2, THEN conjunct1, rule_format])
       (simp add: d8 r)
  moreover have "collisionDetected ex_ship [ex_ast (3079 / 10)]"
    by (rule collision_iff_within_forgiving_radius
          [of ex_ship "ex_ast (3079 / 10)", THEN conjunct2, THEN conjunct2, THEN conjunct2,
           THEN conjunct1, rule_format])
       (simp add: d79 r)
  moreover have "\<exists>b\<in>set (asteroids g'). centre_distance (ship g') b < (8 / 10) * (ship_size (ship g') + a_size b)"
    using collision_iff_within_forgiving_radius
          [of ex_ship "ex_ast 300" ex_game CONFIG 0 "\<lambda>_. False" g', THEN conjunct2, THEN conjunct2,
           THEN conjunct2, THEN conjunct2, rule_format, OF conjI, OF p g'(1)] g'(2)
    by blast
  ultimately show ?thesis using g' by blast
qed

subsection \<open>Spawning\<close>

lemma edge_switch_wf: "wf_rng g \<Longrightarrow> wf_rng (snd (edge_switch W H m e g))"
  by (simp add: edge_switch_def case_prod_beta rand_wf)

lemma edge_switch_Some: "e \<in> {0, 1, 2, 3} \<Longrightarrow> fst (edge_switch W H m e g) \<noteq> None"
  by (auto simp: edge_switch_def case_prod_beta)

lemma spawnFromEdge_wf: "wf_rng g \<Longrightarrow> wf_rng (snd (spawnFromEdge cfg a g))"
  by (simp add: spawnFromEdge_def case_prod_beta Let_def rand_wf edge_switch_wf randInt_wf
      split: option.splits)

lemma spawnFromEdge_Some: "wf_rng g \<Longrightarrow> fst (spawnFromEdge cfg a g) \<noteq> None"
  using edge_switch_Some [OF randInt_0_3, of g]
  by (simp add: spawnFromEdge_def case_prod_beta Let_def split: option.splits)

lemma Asteroid_new_total:
  assumes "wf_rng g"
  shows "\<exists>a g'. Asteroid_new cfg g = (Some a, g') \<and> wf_rng g'"
proof -
  let ?sz = "fst (rand (asteroidMinSize cfg) (asteroidMaxSize cfg) g)"
  let ?g1 = "snd (rand (asteroidMinSize cfg) (asteroidMaxSize cfg) g)"
  let ?rs = "fst (rand (- asteroidRotationSpeed cfg) (asteroidRotationSpeed cfg) ?g1)"
  let ?g2 = "snd (rand (- asteroidRotationSpeed cfg) (asteroidRotationSpeed cfg) ?g1)"
  let ?vc = "fst (randInt (fst (asteroidVertices cfg)) (snd (asteroidVertices cfg)) ?g2)"
  let ?g3 = "snd (randInt (fst (asteroidVertices cfg)) (snd (asteroidVertices cfg)) ?g2)"
  let ?vs = "fst (vertices_from ?sz ?vc 0 ?g3)"
  let ?g4 = "snd (vertices_from ?sz ?vc 0 ?g3)"
  let ?a0 = "\<lparr> a_size = ?sz, a_rotation = 0, a_rotationSpeed = ?rs, a_vertices = ?vs,
            a_x = 0, a_y = 0, a_baseVx = 0, a_baseVy = 0, a_vx = 0, a_vy = 0 \<rparr>"
  have n: "Asteroid_new cfg g = spawnFromEdge cfg ?a0 ?g4"
    by (simp add: Asteroid_new_def case_prod_beta)
  have w: "wf_rng ?g4"
    using assms by (intro vertices_from_wf randInt_wf rand_wf)
  from spawnFromEdge_Some [OF w, of cfg ?a0] spawnFromEdge_wf [OF w, of cfg ?a0]
  show ?thesis unfolding n by (cases "spawnFromEdge cfg ?a0 ?g4") auto
qed

lemma spawnBatch_total:
  assumes "wf_rng r"
  shows "\<exists>batch r'. spawnBatch cfg n asts r = Inr (asts @ batch, r') \<and> length batch = n \<and> wf_rng r'"
  using assms
proof (induction n arbitrary: asts r)
  case 0
  then show ?case by simp
next
  case (Suc n)
  from Asteroid_new_total [OF Suc.prems, of cfg]
  obtain a r1 where a: "Asteroid_new cfg r = (Some a, r1)" "wf_rng r1" by blast
  from Suc.IH [OF a(2), of "asts @ [a]"]
  obtain batch r' where b: "spawnBatch cfg n (asts @ [a]) r1 = Inr ((asts @ [a]) @ batch, r')"
    "length batch = n" "wf_rng r'" by blast
  have "spawnBatch cfg (Suc n) asts r = Inr (asts @ (a # batch), r')"
    using a(1) b(1) by simp
  moreover have "length (a # batch) = Suc n" using b(2) by simp
  ultimately show ?case using b(3) by blast
qed

lemma spawnAsteroids_due:
  assumes "wf_rng (rnd g)" and "asteroidSpawnInterval cfg \<le> spawnTimer g + dt * 1000"
  shows "\<exists>batch r. spawnAsteroids cfg dt g =
            Inr (g\<lparr> spawnTimer := spawnTimer g + dt * 1000 - asteroidSpawnInterval cfg,
                    asteroids := asteroids g @ batch, rnd := r \<rparr>)
          \<and> length batch = asteroidBatchSize cfg \<and> wf_rng r"
proof -
  from spawnBatch_total [OF assms(1), of cfg "asteroidBatchSize cfg" "asteroids g"]
  obtain batch r where b: "spawnBatch cfg (asteroidBatchSize cfg) (asteroids g) (rnd g)
      = Inr (asteroids g @ batch, r)" "length batch = asteroidBatchSize cfg" "wf_rng r"
    by blast
  have "spawnAsteroids cfg dt g =
            Inr (g\<lparr> spawnTimer := spawnTimer g + dt * 1000 - asteroidSpawnInterval cfg,
                    asteroids := asteroids g @ batch, rnd := r \<rparr>)"
    using assms(2) b(1) by (simp add: spawnAsteroids_def Let_def)
  then show ?thesis using b(2,3) by blast
qed

lemma spawnAsteroids_not_due:
  assumes "spawnTimer g + dt * 1000 < asteroidSpawnInterval cfg"
  shows "spawnAsteroids cfg dt g = Inr (g\<lparr> spawnTimer := spawnTimer g + dt * 1000 \<rparr>)"
  using assms by (simp add: spawnAsteroids_def Let_def)

lemma updateSurge_frame:
  "spawnTimer (updateSurge cfg dt g) = spawnTimer g
   \<and> asteroids (updateSurge cfg dt g) = asteroids g
   \<and> ship (updateSurge cfg dt g) = ship g
   \<and> storage (updateSurge cfg dt g) = storage g
   \<and> elapsedTime (updateSurge cfg dt g) = elapsedTime g"
  by (simp add: updateSurge_def Let_def case_prod_beta)

lemma updateSurge_wf: "wf_rng (rnd g) \<Longrightarrow> wf_rng (rnd (updateSurge cfg dt g))"
  by (simp add: updateSurge_def Let_def case_prod_beta rand_wf)


lemma triggerGameOver_frame:
  assumes "triggerGameOver cfg g = Inr g'"
  shows "spawnTimer g' = spawnTimer g \<and> speedMultiplier g' = speedMultiplier g"
  using assms
  by (auto simp: triggerGameOver_def Let_def case_prod_beta split: sum.splits)

lemma triggerGameOver_total:
  assumes "load (stored (storage g)) \<noteq> NotArray"
  shows "\<exists>g'. triggerGameOver cfg g = Inr g'"
proof -
  obtain xs where xs: "load (stored (storage g)) = Numbers xs"
    using assms by (cases "load (stored (storage g))") auto
  show ?thesis
    using xs
    by (simp add: triggerGameOver_def addScore_def getBest_def getScores_def save_def
        Let_def case_prod_beta)
qed


lemma updatePlaying_total:
  assumes "wf_rng (rnd g)" and "load (stored (storage g)) \<noteq> NotArray"
  shows "\<exists>g'. updatePlaying cfg dt ks g = Inr g'"
proof -
  let ?g3 = "updateSurge cfg dt (g\<lparr> elapsedTime := elapsedTime g + dt,
      ship := Ship_update cfg dt ks (ship g) \<rparr>)"
  have w: "wf_rng (rnd ?g3)" using assms(1) by (simp add: updateSurge_wf)
  have "\<exists>g4. spawnAsteroids cfg dt ?g3 = Inr g4 \<and> storage g4 = storage ?g3"
  proof (cases "asteroidSpawnInterval cfg \<le> spawnTimer ?g3 + dt * 1000")
    case True
    from spawnAsteroids_due [OF w True] show ?thesis by auto
  next
    case False
    then show ?thesis by (simp add: spawnAsteroids_not_due)
  qed
  then obtain g4 where g4: "spawnAsteroids cfg dt ?g3 = Inr g4" "storage g4 = storage g"
    by (auto simp: updateSurge_frame)
  let ?g5 = "g4\<lparr> asteroids :=
      updateAsteroids cfg dt (speedMultiplier g4) (length (asteroids g4)) (asteroids g4) \<rparr>"
  have "load (stored (storage ?g5)) \<noteq> NotArray" using assms(2) g4(2) by simp
  from triggerGameOver_total [OF this, of cfg]
  show ?thesis using g4(1) by (auto simp: updatePlaying_def Let_def)
qed

lemma updatePlaying_spawn:
  assumes "wf_rng (rnd g)" and "updatePlaying cfg dt ks g = Inr g'"
  shows "\<exists>batch. length batch =
             (if asteroidSpawnInterval cfg \<le> spawnTimer g + dt * 1000 then asteroidBatchSize cfg else 0)
          \<and> spawnTimer g' =
             (if asteroidSpawnInterval cfg \<le> spawnTimer g + dt * 1000
              then spawnTimer g + dt * 1000 - asteroidSpawnInterval cfg
              else spawnTimer g + dt * 1000)
          \<and> asteroids g' =
             updateAsteroids cfg dt (speedMultiplier g') (length (asteroids g @ batch)) (asteroids g @ batch)"
proof -
  let ?due = "asteroidSpawnInterval cfg \<le> spawnTimer g + dt * 1000"
  let ?g3 = "updateSurge cfg dt (g\<lparr> elapsedTime := elapsedTime g + dt,
      ship := Ship_update cfg dt ks (ship g) \<rparr>)"
  have w: "wf_rng (rnd ?g3)" using assms(1) by (simp add: updateSurge_wf)
  have t3: "spawnTimer ?g3 = spawnTimer g" and a3: "asteroids ?g3 = asteroids g"
    by (simp_all add: updateSurge_frame)
  have "\<exists>g4 batch. spawnAsteroids cfg dt ?g3 = Inr g4
          \<and> length batch = (if ?due then asteroidBatchSize cfg else 0)
          \<and> spawnTimer g4 = (if ?due then spawnTimer g + dt * 1000 - asteroidSpawnInterval cfg
                               else spawnTimer g + dt * 1000)
          \<and> asteroids g4 = asteroids g @ batch"
  proof (cases ?due)
    case True
    then have "asteroidSpawnInterval cfg \<le> spawnTimer ?g3 + dt * 1000" by (simp add: t3)
    from spawnAsteroids_due [OF w this] obtain batch r where
      "spawnAsteroids cfg dt ?g3 =
         Inr (?g3\<lparr> spawnTimer := spawnTimer ?g3 + dt * 1000 - asteroidSpawnInterval cfg,
                    asteroids := asteroids ?g3 @ batch, rnd := r \<rparr>)"
      "length batch = asteroidBatchSize cfg" by blast
    then show ?thesis using True t3 a3 by auto
  next
    case False
    then have "spawnTimer ?g3 + dt * 1000 < asteroidSpawnInterval cfg" by (simp add: t3)
    from spawnAsteroids_not_due [OF this]
    show ?thesis using False t3 a3 by auto
  qed
  then obtain g4 batch where g4: "spawnAsteroids cfg dt ?g3 = Inr g4"
    and len: "length batch = (if ?due then asteroidBatchSize cfg else 0)"
    and tm: "spawnTimer g4 = (if ?due then spawnTimer g + dt * 1000 - asteroidSpawnInterval cfg
                               else spawnTimer g + dt * 1000)"
    and asts: "asteroids g4 = asteroids g @ batch"
    by blast
  let ?g5 = "g4\<lparr> asteroids :=
      updateAsteroids cfg dt (speedMultiplier g4) (length (asteroids g4)) (asteroids g4) \<rparr>"
  have "spawnTimer g' = spawnTimer ?g5 \<and> speedMultiplier g' = speedMultiplier ?g5
        \<and> asteroids g' = asteroids ?g5"
  proof (cases "collisionDetected (ship ?g5) (asteroids ?g5)")
    case True
    then have "triggerGameOver cfg ?g5 = Inr g'"
      using assms(2) g4 by (simp add: updatePlaying_def Let_def)
    from triggerGameOver_frame [OF this] triggerGameOver_result [OF this]
    show ?thesis by simp
  next
    case False
    then have "g' = ?g5"
      using assms(2) g4 by (simp add: updatePlaying_def Let_def)
    then show ?thesis by simp
  qed
  then show ?thesis using len tm asts by (intro exI [of _ batch]) simp
qed


text \<open>
  C9. Each playing-state update adds dt * 1000 to the spawn timer. When the resulting
  timer is at least the spawn interval, the spawn step appends exactly one batch of
  asteroidBatchSize new asteroids to the asteroid list and subtracts the interval from
  the timer (the remainder is kept); otherwise it spawns nothing and the timer keeps
  the accumulated value. For a whole \<open>updatePlaying\<close> call that returns, the timer
  has that value afterwards and the asteroid list is the old list plus the batch, put
  through the move-and-cull loop of the same frame.
\<close>

theorem spawn_timer_batches:
  assumes "wf_rng (rnd g)"
  shows "(asteroidSpawnInterval cfg \<le> spawnTimer g + dt * 1000 \<longrightarrow>
           (\<exists>batch r. spawnAsteroids cfg dt g =
                Inr (g\<lparr> spawnTimer := spawnTimer g + dt * 1000 - asteroidSpawnInterval cfg,
                        asteroids := asteroids g @ batch, rnd := r \<rparr>)
              \<and> length batch = asteroidBatchSize cfg))
       \<and> (spawnTimer g + dt * 1000 < asteroidSpawnInterval cfg \<longrightarrow>
           spawnAsteroids cfg dt g = Inr (g\<lparr> spawnTimer := spawnTimer g + dt * 1000 \<rparr>))
       \<and> (updatePlaying cfg dt ks g = Inr g' \<longrightarrow>
           (\<exists>batch. length batch =
                (if asteroidSpawnInterval cfg \<le> spawnTimer g + dt * 1000 then asteroidBatchSize cfg else 0)
              \<and> spawnTimer g' =
                (if asteroidSpawnInterval cfg \<le> spawnTimer g + dt * 1000
                 then spawnTimer g + dt * 1000 - asteroidSpawnInterval cfg
                 else spawnTimer g + dt * 1000)
              \<and> asteroids g' =
                updateAsteroids cfg dt (speedMultiplier g') (length (asteroids g @ batch))
                  (asteroids g @ batch)))"
proof (intro conjI impI)
  assume "asteroidSpawnInterval cfg \<le> spawnTimer g + dt * 1000"
  from spawnAsteroids_due [OF assms this]
  show "\<exists>batch r. spawnAsteroids cfg dt g =
                Inr (g\<lparr> spawnTimer := spawnTimer g + dt * 1000 - asteroidSpawnInterval cfg,
                        asteroids := asteroids g @ batch, rnd := r \<rparr>)
              \<and> length batch = asteroidBatchSize cfg"
    by blast
next
  assume "spawnTimer g + dt * 1000 < asteroidSpawnInterval cfg"
  then show "spawnAsteroids cfg dt g = Inr (g\<lparr> spawnTimer := spawnTimer g + dt * 1000 \<rparr>)"
    by (rule spawnAsteroids_not_due)
next
  assume "updatePlaying cfg dt ks g = Inr g'"
  with assms show "\<exists>batch. length batch =
                (if asteroidSpawnInterval cfg \<le> spawnTimer g + dt * 1000 then asteroidBatchSize cfg else 0)
              \<and> spawnTimer g' =
                (if asteroidSpawnInterval cfg \<le> spawnTimer g + dt * 1000
                 then spawnTimer g + dt * 1000 - asteroidSpawnInterval cfg
                 else spawnTimer g + dt * 1000)
              \<and> asteroids g' =
                updateAsteroids cfg dt (speedMultiplier g') (length (asteroids g @ batch))
                  (asteroids g @ batch)"
    by (rule updatePlaying_spawn)
qed

lemma ex_run_facts:
  "wf_rng (rnd ex_run)" "spawnTimer ex_run = 0" "asteroids ex_run = []"
  "load (stored (storage ex_run)) \<noteq> NotArray"
  by (simp_all add: ex_run_def startGame_def title_game_def rand_def Math_random_def wf_rng_def)

theorem spawn_timer_batches_witness:
  "(\<exists>batch r. spawnAsteroids CONFIG (1 / 20) (ex_run\<lparr> spawnTimer := 190 \<rparr>) =
        Inr (ex_run\<lparr> spawnTimer := 40, asteroids := batch, rnd := r \<rparr>) \<and> length batch = 3)
   \<and> spawnAsteroids CONFIG (1 / 20) ex_run = Inr (ex_run\<lparr> spawnTimer := 50 \<rparr>)
   \<and> (\<exists>g' batch. updatePlaying CONFIG (1 / 20) (\<lambda>_. False) (ex_run\<lparr> spawnTimer := 190 \<rparr>) = Inr g'
         \<and> length batch = 3 \<and> spawnTimer g' = 40
         \<and> asteroids g' = updateAsteroids CONFIG (1 / 20) (speedMultiplier g') 3 batch)"
proof -
  let ?g = "ex_run\<lparr> spawnTimer := 190 \<rparr>"
  have w: "wf_rng (rnd ?g)" using ex_run_facts(1) by simp
  have "\<exists>batch r. spawnAsteroids CONFIG (1 / 20) ?g =
        Inr (ex_run\<lparr> spawnTimer := 40, asteroids := batch, rnd := r \<rparr>) \<and> length batch = 3"
    using spawn_timer_batches [OF w, of CONFIG "1 / 20", THEN conjunct1]
    by (simp add: ex_run_facts CONFIG_def)
  moreover have "spawnAsteroids CONFIG (1 / 20) ex_run = Inr (ex_run\<lparr> spawnTimer := 50 \<rparr>)"
    using spawn_timer_batches [OF ex_run_facts(1), of CONFIG "1 / 20", THEN conjunct2, THEN conjunct1]
    by (simp add: ex_run_facts CONFIG_def)
  moreover have "\<exists>g' batch. updatePlaying CONFIG (1 / 20) (\<lambda>_. False) ?g = Inr g'
         \<and> length batch = 3 \<and> spawnTimer g' = 40
         \<and> asteroids g' = updateAsteroids CONFIG (1 / 20) (speedMultiplier g') 3 batch"
  proof -
    obtain g' where g': "updatePlaying CONFIG (1 / 20) (\<lambda>_. False) ?g = Inr g'"
      using updatePlaying_total [OF w, of CONFIG "1 / 20" "\<lambda>_. False"] ex_run_facts(4) by auto
    from spawn_timer_batches [OF w, of CONFIG "1 / 20" "\<lambda>_. False" g', THEN conjunct2, THEN conjunct2,
        rule_format, OF g']
    obtain batch where "length batch = 3" "spawnTimer g' = 40"
      "asteroids g' = updateAsteroids CONFIG (1 / 20) (speedMultiplier g') (length batch) batch"
      by (auto simp: ex_run_facts CONFIG_def)
    with g' show ?thesis by auto
  qed
  ultimately show ?thesis by blast
qed

subsection \<open>Surge controller\<close>

lemma updateSurge_idle_wait:
  assumes "\<not> surgeActive g" and "dt * 1000 < surgeTimer g"
  shows "updateSurge cfg dt g = g\<lparr> surgeTimer := surgeTimer g - dt * 1000 \<rparr>"
  using assms by (simp add: updateSurge_def Let_def)

lemma updateSurge_idle_fire:
  assumes "\<not> surgeActive g" and "surgeTimer g \<le> dt * 1000"
  shows "updateSurge cfg dt g =
           g\<lparr> surgeTimer := surgeTimer g - dt * 1000, surgeActive := True,
              speedMultiplier := surgeMultiplier cfg,
              surgeDurationTimer := fst (rand (fst (surgeDuration cfg)) (snd (surgeDuration cfg)) (rnd g)),
              rnd := snd (rand (fst (surgeDuration cfg)) (snd (surgeDuration cfg)) (rnd g)) \<rparr>"
  using assms by (simp add: updateSurge_def Let_def case_prod_beta)

lemma updateSurge_active_wait:
  assumes "surgeActive g" and "dt * 1000 < surgeDurationTimer g"
  shows "updateSurge cfg dt g = g\<lparr> surgeDurationTimer := surgeDurationTimer g - dt * 1000 \<rparr>"
  using assms by (simp add: updateSurge_def Let_def)

lemma updateSurge_active_end:
  assumes "surgeActive g" and "surgeDurationTimer g \<le> dt * 1000"
  shows "updateSurge cfg dt g =
           g\<lparr> surgeDurationTimer := surgeDurationTimer g - dt * 1000, surgeActive := False,
              speedMultiplier := 1,
              surgeTimer := fst (rand (fst (surgeInterval cfg)) (snd (surgeInterval cfg)) (rnd g)),
              rnd := snd (rand (fst (surgeInterval cfg)) (snd (surgeInterval cfg)) (rnd g)) \<rparr>"
  using assms by (simp add: updateSurge_def Let_def case_prod_beta)

lemma feedSurge_Cons: "feedSurge cfg (dt # dts) g = feedSurge cfg dts (updateSurge cfg dt g)"
  by (simp add: feedSurge_def)

lemma feedSurge_Nil: "feedSurge cfg [] g = g"
  by (simp add: feedSurge_def)

lemma feedSurge_active_zeros:
  assumes "surgeActive g" and "0 < surgeDurationTimer g" and "\<forall>dt\<in>set dts. dt = 0"
  shows "feedSurge cfg dts g = g"
  using assms
proof (induction dts)
  case Nil
  then show ?case by (simp add: feedSurge_Nil)
next
  case (Cons dt dts)
  then have "updateSurge cfg dt g = g" by (simp add: updateSurge_active_wait)
  with Cons show ?case by (simp add: feedSurge_Cons)
qed

lemma sum_list_nonneg_zero:
  fixes xs :: "real list"
  assumes "\<forall>x\<in>set xs. 0 \<le> x" and "sum_list xs = 0"
  shows "\<forall>x\<in>set xs. x = 0"
  using assms by (simp add: sum_list_nonneg_eq_0_iff)

lemma feedSurge_to_active:
  assumes "\<not> surgeActive g" and "0 < surgeTimer g" and "\<forall>dt\<in>set dts. 0 \<le> dt"
    and "sum_list dts * 1000 = surgeTimer g" and "wf_rng (rnd g)"
    and "0 < fst (surgeDuration cfg)" and "fst (surgeDuration cfg) \<le> snd (surgeDuration cfg)"
  shows "surgeActive (feedSurge cfg dts g) \<and> speedMultiplier (feedSurge cfg dts g) = surgeMultiplier cfg"
  using assms(1-5)
proof (induction dts arbitrary: g)
  case Nil
  then show ?case by simp
next
  case (Cons dt dts)
  have rest: "0 \<le> sum_list dts" using Cons.prems(3) by (simp add: sum_list_nonneg)
  have le: "dt * 1000 \<le> surgeTimer g" using Cons.prems(4) rest by simp
  show ?case
  proof (cases "dt * 1000 < surgeTimer g")
    case True
    let ?g1 = "g\<lparr> surgeTimer := surgeTimer g - dt * 1000 \<rparr>"
    have u: "updateSurge cfg dt g = ?g1" using Cons.prems(1) True by (rule updateSurge_idle_wait)
    have "surgeActive (feedSurge cfg dts ?g1) \<and> speedMultiplier (feedSurge cfg dts ?g1) = surgeMultiplier cfg"
      using Cons.prems True by (intro Cons.IH) (simp_all add: algebra_simps)
    then show ?thesis by (simp add: feedSurge_Cons u)
  next
    case False
    with le have eq: "surgeTimer g = dt * 1000" by simp
    let ?d = "fst (rand (fst (surgeDuration cfg)) (snd (surgeDuration cfg)) (rnd g))"
    let ?g1 = "updateSurge cfg dt g"
    have u: "surgeActive ?g1" "speedMultiplier ?g1 = surgeMultiplier cfg" "surgeDurationTimer ?g1 = ?d"
      using Cons.prems(1) eq by (simp_all add: updateSurge_idle_fire)
    have "fst (surgeDuration cfg) \<le> ?d"
      using Cons.prems(5) assms(7) by (rule rand_range)
    then have pos: "0 < surgeDurationTimer ?g1" using assms(6) u(3) by simp
    have "sum_list dts = 0" using Cons.prems(4) eq by simp
    then have "\<forall>x\<in>set dts. x = 0"
      using Cons.prems(3) by (intro sum_list_nonneg_zero) simp_all
    from feedSurge_active_zeros [OF u(1) pos this]
    show ?thesis using u by (simp add: feedSurge_Cons)
  qed
qed

lemma feedSurge_to_idle:
  assumes "surgeActive g" and "\<forall>d\<in>set pre. 0 \<le> d"
    and "sum_list pre * 1000 < surgeDurationTimer g"
    and "surgeDurationTimer g \<le> (sum_list pre + dt) * 1000"
  shows "\<not> surgeActive (feedSurge cfg (pre @ [dt]) g) \<and> speedMultiplier (feedSurge cfg (pre @ [dt]) g) = 1"
  using assms
proof (induction pre arbitrary: g)
  case Nil
  then show ?case by (simp add: feedSurge_Cons feedSurge_Nil updateSurge_active_end)
next
  case (Cons d pre)
  have rest: "0 \<le> sum_list pre" using Cons.prems(2) by (simp add: sum_list_nonneg)
  have lt: "d * 1000 < surgeDurationTimer g" using Cons.prems(3) rest by simp
  let ?g1 = "g\<lparr> surgeDurationTimer := surgeDurationTimer g - d * 1000 \<rparr>"
  have u: "updateSurge cfg d g = ?g1" using Cons.prems(1) lt by (rule updateSurge_active_wait)
  have "\<not> surgeActive (feedSurge cfg (pre @ [dt]) ?g1) \<and> speedMultiplier (feedSurge cfg (pre @ [dt]) ?g1) = 1"
    using Cons.prems by (intro Cons.IH) (simp_all add: algebra_simps)
  then show ?case by (simp add: feedSurge_Cons u)
qed


lemma feedSurge_append:
  "feedSurge cfg (xs @ ys) g = feedSurge cfg ys (feedSurge cfg xs g)"
  by (simp add: feedSurge_def)

lemma feedSurge_to_idle_timer:
  assumes "surgeActive g" and "\<forall>d\<in>set pre. 0 \<le> d"
    and "sum_list pre * 1000 < surgeDurationTimer g"
    and "surgeDurationTimer g \<le> (sum_list pre + dt) * 1000"
  shows "surgeTimer (feedSurge cfg (pre @ [dt]) g)
         = fst (rand (fst (surgeInterval cfg)) (snd (surgeInterval cfg)) (rnd g))"
  using assms
proof (induction pre arbitrary: g)
  case Nil
  then show ?case by (simp add: feedSurge_Cons feedSurge_Nil updateSurge_active_end)
next
  case (Cons d pre)
  have rest: "0 \<le> sum_list pre" using Cons.prems(2) by (simp add: sum_list_nonneg)
  have lt: "d * 1000 < surgeDurationTimer g" using Cons.prems(3) rest by simp
  let ?g1 = "g\<lparr> surgeDurationTimer := surgeDurationTimer g - d * 1000 \<rparr>"
  have u: "updateSurge cfg d g = ?g1" using Cons.prems(1) lt by (rule updateSurge_active_wait)
  have "surgeTimer (feedSurge cfg (pre @ [dt]) ?g1)
         = fst (rand (fst (surgeInterval cfg)) (snd (surgeInterval cfg)) (rnd ?g1))"
    using Cons.prems by (intro Cons.IH) (simp_all add: algebra_simps)
  then show ?case by (simp add: feedSurge_Cons u)
qed

text \<open>
  After the return to Idle, further calls whose non-negative elapsed times add up to
  less than the fresh Idle countdown leave the controller Idle with multiplier 1.
\<close>

lemma feedSurge_idle_stays:
  assumes "\<not> surgeActive g" and "\<forall>d\<in>set post. 0 \<le> d" and "sum_list post * 1000 < surgeTimer g"
  shows "\<not> surgeActive (feedSurge cfg post g)
       \<and> speedMultiplier (feedSurge cfg post g) = speedMultiplier g"
  using assms
proof (induction post arbitrary: g)
  case Nil
  then show ?case by (simp add: feedSurge_Nil)
next
  case (Cons d post)
  have rest: "0 \<le> sum_list post" using Cons.prems(2) by (simp add: sum_list_nonneg)
  have lt: "d * 1000 < surgeTimer g" using Cons.prems(3) rest by simp
  let ?g1 = "g\<lparr> surgeTimer := surgeTimer g - d * 1000 \<rparr>"
  have u: "updateSurge cfg d g = ?g1" using Cons.prems(1) lt by (rule updateSurge_idle_wait)
  have "\<not> surgeActive (feedSurge cfg post ?g1)
      \<and> speedMultiplier (feedSurge cfg post ?g1) = speedMultiplier ?g1"
    using Cons.prems by (intro Cons.IH) (simp_all add: algebra_simps)
  then show ?case by (simp add: feedSurge_Cons u)
qed

lemma feedSurge_to_idle_and_on:
  assumes "surgeActive g" and "\<forall>d\<in>set pre. 0 \<le> d"
    and "sum_list pre * 1000 < surgeDurationTimer g"
    and "surgeDurationTimer g \<le> (sum_list pre + dt) * 1000"
    and "\<forall>d\<in>set post. 0 \<le> d"
    and "sum_list post * 1000 < fst (rand (fst (surgeInterval cfg)) (snd (surgeInterval cfg)) (rnd g))"
  shows "\<not> surgeActive (feedSurge cfg (pre @ dt # post) g)
       \<and> speedMultiplier (feedSurge cfg (pre @ dt # post) g) = 1"
proof -
  let ?h = "feedSurge cfg (pre @ [dt]) g"
  have h: "\<not> surgeActive ?h" "speedMultiplier ?h = 1"
    using feedSurge_to_idle [OF assms(1-4), of cfg] by simp_all
  have t: "sum_list post * 1000 < surgeTimer ?h"
    using feedSurge_to_idle_timer [OF assms(1-4), of cfg] assms(6) by simp
  have "feedSurge cfg (pre @ dt # post) g = feedSurge cfg post ?h"
    using feedSurge_append [of cfg "pre @ [dt]" post g] by simp
  then show ?thesis
    using feedSurge_idle_stays [OF h(1) assms(5) t, of cfg] h(2) by simp
qed

lemma feedSurge_total_to_idle:
  assumes "surgeActive g" and "0 < surgeDurationTimer g" and "\<forall>d\<in>set dts. 0 \<le> d"
    and "surgeDurationTimer g \<le> sum_list dts * 1000"
    and "sum_list dts * 1000 < surgeDurationTimer g
           + fst (rand (fst (surgeInterval cfg)) (snd (surgeInterval cfg)) (rnd g))"
  shows "\<not> surgeActive (feedSurge cfg dts g) \<and> speedMultiplier (feedSurge cfg dts g) = 1"
  using assms
proof (induction dts arbitrary: g)
  case Nil
  then show ?case by simp
next
  case (Cons d dts)
  let ?t = "fst (rand (fst (surgeInterval cfg)) (snd (surgeInterval cfg)) (rnd g))"
  have nn: "\<forall>x\<in>set dts. 0 \<le> x" using Cons.prems(3) by simp
  show ?case
  proof (cases "d * 1000 < surgeDurationTimer g")
    case True
    let ?g1 = "g\<lparr> surgeDurationTimer := surgeDurationTimer g - d * 1000 \<rparr>"
    have u: "updateSurge cfg d g = ?g1" using Cons.prems(1) True by (rule updateSurge_active_wait)
    have "\<not> surgeActive (feedSurge cfg dts ?g1) \<and> speedMultiplier (feedSurge cfg dts ?g1) = 1"
      using Cons.prems True by (intro Cons.IH) (simp_all add: algebra_simps)
    then show ?thesis by (simp add: feedSurge_Cons u)
  next
    case False
    then have le: "surgeDurationTimer g \<le> d * 1000" by simp
    let ?g1 = "updateSurge cfg d g"
    have g1: "\<not> surgeActive ?g1" "speedMultiplier ?g1 = 1" "surgeTimer ?g1 = ?t"
      using Cons.prems(1) le by (simp_all add: updateSurge_active_end)
    have "sum_list dts * 1000 < surgeTimer ?g1"
      using Cons.prems(5) le g1(3) by (simp add: algebra_simps)
    from feedSurge_idle_stays [OF g1(1) nn this, of cfg] g1(2)
    show ?thesis by (simp add: feedSurge_Cons)
  qed
qed

text \<open>
  C2, as amended. Starting Idle with countdown C > 0, update calls with non-negative
  elapsed times that add up to exactly C ms (one call or several) leave the controller
  Active with the configured surge multiplier. From an Active state with a positive
  countdown, non-negative elapsed times whose total is at least the Active countdown
  and less than that countdown plus the Idle countdown drawn at the return leave it
  Idle with multiplier 1: the call at which the cumulative time reaches the Active
  countdown makes the return, and the time fed after that call has to stay below the
  fresh Idle countdown, since it runs that countdown down and a longer feed starts the
  next surge. Every single call fires at most one transition however large its elapsed
  time: a call that crosses the Idle countdown ends Active with the freshly drawn,
  undiminished duration, a call that crosses the Active countdown ends Idle with the
  freshly drawn, undiminished interval, and any other call only decrements the current
  countdown.
\<close>

theorem surge_controller_schedule:
  "(\<not> surgeActive g \<and> 0 < surgeTimer g \<and> (\<forall>d\<in>set dts. 0 \<le> d)
      \<and> sum_list dts * 1000 = surgeTimer g
      \<and> wf_rng (rnd g) \<and> 0 < fst (surgeDuration cfg) \<and> fst (surgeDuration cfg) \<le> snd (surgeDuration cfg)
    \<longrightarrow> surgeActive (feedSurge cfg dts g)
      \<and> speedMultiplier (feedSurge cfg dts g) = surgeMultiplier cfg)
   \<and> (surgeActive g \<and> (\<forall>d\<in>set pre. 0 \<le> d)
      \<and> sum_list pre * 1000 < surgeDurationTimer g
      \<and> surgeDurationTimer g \<le> (sum_list pre + dt) * 1000
    \<longrightarrow> \<not> surgeActive (feedSurge cfg (pre @ [dt]) g)
      \<and> speedMultiplier (feedSurge cfg (pre @ [dt]) g) = 1)
   \<and> (\<not> surgeActive g \<and> surgeTimer g \<le> dt * 1000
    \<longrightarrow> updateSurge cfg dt g =
          g\<lparr> surgeTimer := surgeTimer g - dt * 1000, surgeActive := True,
             speedMultiplier := surgeMultiplier cfg,
             surgeDurationTimer := fst (rand (fst (surgeDuration cfg)) (snd (surgeDuration cfg)) (rnd g)),
             rnd := snd (rand (fst (surgeDuration cfg)) (snd (surgeDuration cfg)) (rnd g)) \<rparr>)
   \<and> (surgeActive g \<and> surgeDurationTimer g \<le> dt * 1000
    \<longrightarrow> updateSurge cfg dt g =
          g\<lparr> surgeDurationTimer := surgeDurationTimer g - dt * 1000, surgeActive := False,
             speedMultiplier := 1,
             surgeTimer := fst (rand (fst (surgeInterval cfg)) (snd (surgeInterval cfg)) (rnd g)),
             rnd := snd (rand (fst (surgeInterval cfg)) (snd (surgeInterval cfg)) (rnd g)) \<rparr>)
   \<and> (\<not> surgeActive g \<and> dt * 1000 < surgeTimer g
    \<longrightarrow> updateSurge cfg dt g = g\<lparr> surgeTimer := surgeTimer g - dt * 1000 \<rparr>)
   \<and> (surgeActive g \<and> dt * 1000 < surgeDurationTimer g
    \<longrightarrow> updateSurge cfg dt g = g\<lparr> surgeDurationTimer := surgeDurationTimer g - dt * 1000 \<rparr>)
   \<and> (surgeActive g \<and> (\<forall>d\<in>set pre. 0 \<le> d)
      \<and> sum_list pre * 1000 < surgeDurationTimer g
      \<and> surgeDurationTimer g \<le> (sum_list pre + dt) * 1000
      \<and> (\<forall>d\<in>set post. 0 \<le> d)
      \<and> sum_list post * 1000 < fst (rand (fst (surgeInterval cfg)) (snd (surgeInterval cfg)) (rnd g))
    \<longrightarrow> \<not> surgeActive (feedSurge cfg (pre @ dt # post) g)
      \<and> speedMultiplier (feedSurge cfg (pre @ dt # post) g) = 1)
   \<and> (surgeActive g \<and> 0 < surgeDurationTimer g \<and> (\<forall>d\<in>set dts. 0 \<le> d)
      \<and> surgeDurationTimer g \<le> sum_list dts * 1000
      \<and> sum_list dts * 1000 < surgeDurationTimer g
            + fst (rand (fst (surgeInterval cfg)) (snd (surgeInterval cfg)) (rnd g))
    \<longrightarrow> \<not> surgeActive (feedSurge cfg dts g)
      \<and> speedMultiplier (feedSurge cfg dts g) = 1)"
proof -
  note a = feedSurge_to_active [of g dts cfg]
  note b = feedSurge_to_idle [of g pre dt cfg]
  note c = updateSurge_idle_fire [of g dt cfg] updateSurge_active_end [of g dt cfg]
  note d = updateSurge_idle_wait [of g dt cfg] updateSurge_active_wait [of g dt cfg]
  note e = feedSurge_to_idle_and_on [of g pre dt post cfg]
  note f = feedSurge_total_to_idle [of g dts cfg]
  show ?thesis
    by (intro conjI impI; (elim conjE)?) (use a b c d e f in blast)+
qed

lemma ex_run_surge:
  "\<not> surgeActive ex_run" "surgeTimer ex_run = 7500" "rnd ex_run = (\<lambda>_. 1 / 2)"
  "speedMultiplier ex_run = 1"
  by (simp_all add: ex_run_def startGame_def title_game_def rand_def Math_random_def CONFIG_def)

lemma ex_surge_step:
  "updateSurge CONFIG (15 / 2) ex_run =
     ex_run\<lparr> surgeTimer := 0, surgeActive := True, speedMultiplier := 3 / 2, surgeDurationTimer := 2000 \<rparr>"
  by (simp add: updateSurge_idle_fire ex_run_surge rand_def Math_random_def CONFIG_def)


theorem surge_controller_schedule_witness:
  "surgeActive (feedSurge CONFIG [3, 9 / 2] ex_run)
   \<and> speedMultiplier (feedSurge CONFIG [3, 9 / 2] ex_run) = 3 / 2
   \<and> \<not> surgeActive (feedSurge CONFIG ([1] @ [1]) (updateSurge CONFIG (15 / 2) ex_run))
   \<and> speedMultiplier (feedSurge CONFIG ([1] @ [1]) (updateSurge CONFIG (15 / 2) ex_run)) = 1
   \<and> surgeActive (updateSurge CONFIG 100 ex_run)
   \<and> surgeDurationTimer (updateSurge CONFIG 100 ex_run) = 2000
   \<and> \<not> surgeActive (updateSurge CONFIG 100 (updateSurge CONFIG (15 / 2) ex_run))
   \<and> surgeTimer (updateSurge CONFIG 100 (updateSurge CONFIG (15 / 2) ex_run)) = 7500
   \<and> surgeTimer (updateSurge CONFIG 1 ex_run) = 6500
   \<and> surgeDurationTimer (updateSurge CONFIG 1 (updateSurge CONFIG (15 / 2) ex_run)) = 1000
   \<and> \<not> surgeActive (feedSurge CONFIG ([1] @ 1 # [1, 2]) (updateSurge CONFIG (15 / 2) ex_run))
   \<and> speedMultiplier (feedSurge CONFIG ([1] @ 1 # [1, 2]) (updateSurge CONFIG (15 / 2) ex_run)) = 1
   \<and> \<not> surgeActive (feedSurge CONFIG [1, 1, 1] (updateSurge CONFIG (15 / 2) ex_run))
   \<and> speedMultiplier (feedSurge CONFIG [1, 1, 1] (updateSurge CONFIG (15 / 2) ex_run)) = 1"
proof -
  let ?a = "updateSurge CONFIG (15 / 2) ex_run"
  have a: "surgeActive ?a" "surgeDurationTimer ?a = 2000" "rnd ?a = (\<lambda>_. 1 / 2)"
    by (simp_all add: ex_surge_step ex_run_surge)
  have r4: "fst (rand (fst (surgeInterval CONFIG)) (snd (surgeInterval CONFIG)) (rnd ?a)) = 7500"
    unfolding a(3) by (simp add: rand_def Math_random_def CONFIG_def)
  have p1: "surgeActive (feedSurge CONFIG [3, 9 / 2] ex_run)
      \<and> speedMultiplier (feedSurge CONFIG [3, 9 / 2] ex_run) = surgeMultiplier CONFIG"
    by (rule surge_controller_schedule [of ex_run "[3, 9 / 2]" CONFIG, THEN conjunct1, rule_format])
       (simp add: ex_run_surge wf_rng_half CONFIG_def)
  have p2: "\<not> surgeActive (feedSurge CONFIG ([1] @ [1]) ?a)
      \<and> speedMultiplier (feedSurge CONFIG ([1] @ [1]) ?a) = 1"
    by (rule surge_controller_schedule [of ?a _ _ "[1]" 1, THEN conjunct2, THEN conjunct1, rule_format])
       (simp add: a)
  have p3: "updateSurge CONFIG 100 ex_run =
      ex_run\<lparr> surgeTimer := surgeTimer ex_run - 100 * 1000, surgeActive := True,
             speedMultiplier := surgeMultiplier CONFIG,
             surgeDurationTimer := fst (rand (fst (surgeDuration CONFIG)) (snd (surgeDuration CONFIG)) (rnd ex_run)),
             rnd := snd (rand (fst (surgeDuration CONFIG)) (snd (surgeDuration CONFIG)) (rnd ex_run)) \<rparr>"
    by (rule surge_controller_schedule [of ex_run _ CONFIG _ 100, THEN conjunct2, THEN conjunct2,
          THEN conjunct1, rule_format])
       (simp add: ex_run_surge)
  have p4: "updateSurge CONFIG 100 ?a =
      ?a\<lparr> surgeDurationTimer := surgeDurationTimer ?a - 100 * 1000, surgeActive := False,
          speedMultiplier := 1,
          surgeTimer := fst (rand (fst (surgeInterval CONFIG)) (snd (surgeInterval CONFIG)) (rnd ?a)),
          rnd := snd (rand (fst (surgeInterval CONFIG)) (snd (surgeInterval CONFIG)) (rnd ?a)) \<rparr>"
    by (rule surge_controller_schedule [of ?a _ CONFIG _ 100, THEN conjunct2, THEN conjunct2,
          THEN conjunct2, THEN conjunct1, rule_format])
       (simp add: a)
  have p5: "updateSurge CONFIG 1 ex_run = ex_run\<lparr> surgeTimer := surgeTimer ex_run - 1 * 1000 \<rparr>"
    by (rule surge_controller_schedule [of ex_run _ CONFIG _ 1, THEN conjunct2, THEN conjunct2,
          THEN conjunct2, THEN conjunct2, THEN conjunct1, rule_format])
       (simp add: ex_run_surge)
  have p6: "updateSurge CONFIG 1 ?a = ?a\<lparr> surgeDurationTimer := surgeDurationTimer ?a - 1 * 1000 \<rparr>"
    by (rule surge_controller_schedule [of ?a _ CONFIG _ 1, THEN conjunct2, THEN conjunct2,
          THEN conjunct2, THEN conjunct2, THEN conjunct2, THEN conjunct1, rule_format])
       (simp add: a)
  have p7: "\<not> surgeActive (feedSurge CONFIG ([1] @ 1 # [1, 2]) ?a)
      \<and> speedMultiplier (feedSurge CONFIG ([1] @ 1 # [1, 2]) ?a) = 1"
    by (rule surge_controller_schedule [of ?a _ CONFIG "[1]" 1 "[1, 2]", THEN conjunct2, THEN conjunct2,
          THEN conjunct2, THEN conjunct2, THEN conjunct2, THEN conjunct2, THEN conjunct1,
          rule_format])
       (simp add: a(1,2) r4)
  have p8: "\<not> surgeActive (feedSurge CONFIG [1, 1, 1] ?a)
      \<and> speedMultiplier (feedSurge CONFIG [1, 1, 1] ?a) = 1"
    by (rule surge_controller_schedule [of ?a "[1, 1, 1]" CONFIG, THEN conjunct2, THEN conjunct2,
          THEN conjunct2, THEN conjunct2, THEN conjunct2, THEN conjunct2, THEN conjunct2,
          rule_format])
       (simp add: a(1,2) r4)
  have c: "surgeMultiplier CONFIG = 3 / 2" by (simp add: CONFIG_def)
  have q3: "surgeActive (updateSurge CONFIG 100 ex_run)
      \<and> surgeDurationTimer (updateSurge CONFIG 100 ex_run) = 2000"
    unfolding p3 by (simp add: ex_run_surge rand_def Math_random_def CONFIG_def)
  have q4: "\<not> surgeActive (updateSurge CONFIG 100 ?a) \<and> surgeTimer (updateSurge CONFIG 100 ?a) = 7500"
    unfolding p4 using r4 by simp
  have q5: "surgeTimer (updateSurge CONFIG 1 ex_run) = 6500"
    unfolding p5 by (simp add: ex_run_surge)
  have q6: "surgeDurationTimer (updateSurge CONFIG 1 ?a) = 1000"
    unfolding p6 by (simp add: a)
  show ?thesis using p1 p2 q3 q4 q5 q6 p7 p8 c by simp
qed

text \<open>
  The claim as it was stated, with any total of at least the Active countdown, fails
  for a long feed: from the surge that \<open>ex_run\<close> enters after 7.5 s, with an Active
  countdown of 2000 ms, the calls of 2 s and 10 s have a total of 12000 ms, and the
  controller ends Active again with the surge multiplier, in the next surge.
\<close>

theorem surge_controller_schedule_counterexample:
  "surgeActive (updateSurge CONFIG (15 / 2) ex_run)
   \<and> surgeDurationTimer (updateSurge CONFIG (15 / 2) ex_run) = 2000
   \<and> surgeDurationTimer (updateSurge CONFIG (15 / 2) ex_run) \<le> sum_list [2, 10] * 1000
   \<and> surgeActive (feedSurge CONFIG [2, 10] (updateSurge CONFIG (15 / 2) ex_run))
   \<and> speedMultiplier (feedSurge CONFIG [2, 10] (updateSurge CONFIG (15 / 2) ex_run)) = 3 / 2
   \<and> speedMultiplier (feedSurge CONFIG [2, 10] (updateSurge CONFIG (15 / 2) ex_run)) \<noteq> 1"
proof -
  let ?a = "updateSurge CONFIG (15 / 2) ex_run"
  have a: "surgeActive ?a" "surgeDurationTimer ?a = 2000" "rnd ?a = (\<lambda>_. 1 / 2)"
    by (simp_all add: ex_surge_step ex_run_surge)
  let ?b = "updateSurge CONFIG 2 ?a"
  have r: "fst (rand (fst (surgeInterval CONFIG)) (snd (surgeInterval CONFIG)) (rnd ?a)) = 7500"
    unfolding a(3) by (simp add: rand_def Math_random_def CONFIG_def)
  have b: "\<not> surgeActive ?b" "surgeTimer ?b = 7500"
    using r by (simp_all add: updateSurge_active_end a)
  have "surgeActive (updateSurge CONFIG 10 ?b)"
    "speedMultiplier (updateSurge CONFIG 10 ?b) = surgeMultiplier CONFIG"
    using b by (simp_all add: updateSurge_idle_fire)
  moreover have "surgeMultiplier CONFIG = 3 / 2" by (simp add: CONFIG_def)
  ultimately show ?thesis using a(1,2) by (simp add: feedSurge_Cons feedSurge_Nil)
qed

lemma surge_invariant:
  assumes "surge_reachable cfg g"
    and "surgeMultiplier cfg \<noteq> 1"
    and "0 \<le> fst (surgeInterval cfg)" and "fst (surgeInterval cfg) \<le> snd (surgeInterval cfg)"
    and "0 \<le> fst (surgeDuration cfg)" and "fst (surgeDuration cfg) \<le> snd (surgeDuration cfg)"
  shows "wf_rng (rnd g) \<and> (speedMultiplier g = 1 \<longleftrightarrow> \<not> surgeActive g)
       \<and> (if surgeActive g then 0 \<le> surgeDurationTimer g else 0 \<le> surgeTimer g)"
  using assms(1)
proof (induction rule: surge_reachable.induct)
  case (start g)
  have "fst (surgeInterval cfg) \<le> fst (rand (fst (surgeInterval cfg)) (snd (surgeInterval cfg)) (rnd g))"
    using start assms(4) by (rule rand_range)
  then show ?case
    using assms(3) start by (simp add: startGame_def case_prod_beta rand_wf)
next
  case (update g dt)
  then have w: "wf_rng (rnd g)" by simp
  have iv: "0 \<le> fst (rand (fst (surgeInterval cfg)) (snd (surgeInterval cfg)) (rnd g))"
    using rand_range(1) [OF w assms(4)] assms(3) by simp
  have du: "0 \<le> fst (rand (fst (surgeDuration cfg)) (snd (surgeDuration cfg)) (rnd g))"
    using rand_range(1) [OF w assms(6)] assms(5) by simp
  consider (iw) "\<not> surgeActive g" "dt * 1000 < surgeTimer g"
    | (ifire) "\<not> surgeActive g" "surgeTimer g \<le> dt * 1000"
    | (aw) "surgeActive g" "dt * 1000 < surgeDurationTimer g"
    | (aend) "surgeActive g" "surgeDurationTimer g \<le> dt * 1000"
    by fastforce
  then show ?case
  proof cases
    case iw
    then show ?thesis using update.IH by (simp add: updateSurge_idle_wait)
  next
    case ifire
    then show ?thesis using update.IH du assms(2) by (simp add: updateSurge_idle_fire rand_wf)
  next
    case aw
    then show ?thesis using update.IH by (simp add: updateSurge_active_wait)
  next
    case aend
    then show ?thesis using update.IH iv by (simp add: updateSurge_active_end rand_wf)
  qed
next
  case (draws g r)
  then show ?case by simp
qed

text \<open>
  C3. In every state reachable from run start by surge-controller updates, the speed
  multiplier is 1 if and only if the surge is inactive, and the countdown of the
  current state (time until the next surge when inactive, time until the surge ends
  when active) is non-negative. This needs a surge multiplier other than 1 and
  non-negative, ordered interval and duration ranges in the configuration.
\<close>

theorem surge_multiplier_and_countdown_invariant:
  assumes "surge_reachable cfg g"
    and "surgeMultiplier cfg \<noteq> 1"
    and "0 \<le> fst (surgeInterval cfg)" and "fst (surgeInterval cfg) \<le> snd (surgeInterval cfg)"
    and "0 \<le> fst (surgeDuration cfg)" and "fst (surgeDuration cfg) \<le> snd (surgeDuration cfg)"
  shows "(speedMultiplier g = 1 \<longleftrightarrow> \<not> surgeActive g)
       \<and> (if surgeActive g then 0 \<le> surgeDurationTimer g else 0 \<le> surgeTimer g)"
  using surge_invariant [OF assms] by simp

lemma ex_run_reachable: "surge_reachable CONFIG (updateSurge CONFIG 8 ex_run)"
  unfolding ex_run_def
  by (intro surge_reachable.update surge_reachable.start) (simp add: title_game_def wf_rng_def)

theorem surge_multiplier_and_countdown_invariant_witness:
  "surge_reachable CONFIG (updateSurge CONFIG 8 ex_run)
   \<and> surgeActive (updateSurge CONFIG 8 ex_run)
   \<and> speedMultiplier (updateSurge CONFIG 8 ex_run) \<noteq> 1
   \<and> 0 \<le> surgeDurationTimer (updateSurge CONFIG 8 ex_run)"
proof -
  have a: "surgeActive (updateSurge CONFIG 8 ex_run)"
    by (simp add: updateSurge_idle_fire ex_run_surge)
  have c: "surgeMultiplier CONFIG \<noteq> 1"
    "0 \<le> fst (surgeInterval CONFIG)" "fst (surgeInterval CONFIG) \<le> snd (surgeInterval CONFIG)"
    "0 \<le> fst (surgeDuration CONFIG)" "fst (surgeDuration CONFIG) \<le> snd (surgeDuration CONFIG)"
    by (simp_all add: CONFIG_def)
  note surge_multiplier_and_countdown_invariant [OF ex_run_reachable c]
  with a ex_run_reachable show ?thesis by simp
qed

subsection \<open>Move-and-cull loop\<close>

text \<open>
  The backwards loop with \<^verbatim>\<open>splice\<close> visits every asteroid once: it moves all of
  them and keeps, in their order, exactly those that are not off-screen afterwards.
\<close>

lemma updateAsteroids_prefix:
  assumes "i \<le> length asts"
  shows "updateAsteroids cfg dt m i asts =
           filter (\<lambda>a. \<not> isOffScreen cfg a) (map (Asteroid_update dt m) (take i asts)) @ drop i asts"
  using assms
proof (induction i arbitrary: asts)
  case 0
  then show ?case by simp
next
  case (Suc i)
  then have i: "i < length asts" by simp
  let ?b = "Asteroid_update dt m (asts ! i)"
  let ?asts1 = "asts[i := ?b]"
  have t: "take i ?asts1 = take i asts" by simp
  have d: "drop (Suc i) ?asts1 = drop (Suc i) asts" by simp
  have n: "?asts1 ! i = ?b" using i by simp
  have ts: "take (Suc i) asts = take i asts @ [asts ! i]"
    using i by (simp add: take_Suc_conv_app_nth)
  show ?case
  proof (cases "isOffScreen cfg ?b")
    case True
    let ?asts2 = "take i asts @ drop (Suc i) asts"
    have len: "i \<le> length ?asts2" using i by simp
    have "updateAsteroids cfg dt m (Suc i) asts = updateAsteroids cfg dt m i ?asts2"
      using True n t d by (simp add: Let_def)
    also have "\<dots> = filter (\<lambda>a. \<not> isOffScreen cfg a) (map (Asteroid_update dt m) (take i ?asts2))
                    @ drop i ?asts2"
      using len by (rule Suc.IH)
    also have "take i ?asts2 = take i asts" using i by simp
    also have "drop i ?asts2 = drop (Suc i) asts" using i by simp
    finally show ?thesis using True by (simp add: ts)
  next
    case False
    have len: "i \<le> length ?asts1" using i by simp
    have "updateAsteroids cfg dt m (Suc i) asts = updateAsteroids cfg dt m i ?asts1"
      using False n by (simp add: Let_def)
    also have "\<dots> = filter (\<lambda>a. \<not> isOffScreen cfg a) (map (Asteroid_update dt m) (take i ?asts1))
                    @ drop i ?asts1"
      using len by (rule Suc.IH)
    also have "drop i ?asts1 = ?b # drop (Suc i) asts"
      using i by (simp add: drop_update_cancel Cons_nth_drop_Suc [symmetric] del: list_update.simps)
    finally show ?thesis using False by (simp add: ts t)
  qed
qed

lemma updateAsteroids_filter_map:
  "updateAsteroids cfg dt m (length asts) asts =
     filter (\<lambda>a. \<not> isOffScreen cfg a) (map (Asteroid_update dt m) asts)"
  by (simp add: updateAsteroids_prefix)


end
